theory Spec2Isabelle
  imports
    Main
    "HOL-Library.Word"
    "HOL-Library.AList"
    "HOL-Library.Char_ord"
    "HOL-Library.List_Lexorder"
begin

section \<open>cf-drain-cli: the \<open>create-drain\<close> command\<close>

text \<open>
  A shallow embedding of \<^verbatim>\<open>internal/command/create_drain.go\<close>. Go strings are byte
  sequences and are modelled as \<open>string\<close> (a list of 8-bit characters); a Go \<open>error\<close> is
  modelled by its message; a call that returns \<open>(value, error)\<close> yields \<open>Inl message\<close> or
  \<open>Inr value\<close>.
\<close>

subsection \<open>Formatting verbs of package fmt\<close>

text \<open>\<^verbatim>\<open>%d\<close> on a non-negative integer (here: \<^verbatim>\<open>len(args)\<close>).\<close>

definition digit_char :: "nat \<Rightarrow> char" where
  "digit_char n = ''0123456789'' ! n"

fun Sprintf_d :: "nat \<Rightarrow> string" where
  "Sprintf_d n = (if n < 10 then [digit_char n] else Sprintf_d (n div 10) @ [digit_char (n mod 10)])"

declare Sprintf_d.simps [simp del]

text \<open>\<^verbatim>\<open>%t\<close> on a bool.\<close>

definition Sprintf_t :: "bool \<Rightarrow> string" where
  "Sprintf_t b = (if b then ''true'' else ''false'')"

text \<open>\<^verbatim>\<open>%x\<close> on a byte array or byte slice: two lower-case hex digits per byte.\<close>

definition lowerhex :: "nat \<Rightarrow> char" where
  "lowerhex n = ''0123456789abcdef'' ! n"

definition hex_byte :: "8 word \<Rightarrow> string" where
  "hex_byte b = [lowerhex (unat b div 16), lowerhex (unat b mod 16)]"

definition Sprintf_x :: "8 word list \<Rightarrow> string" where
  "Sprintf_x bs = concat (map hex_byte bs)"

text \<open>
  \<^verbatim>\<open>%q\<close> on a string is \<^verbatim>\<open>strconv.Quote\<close>: the string in double quotes, with \<open>"\<close> and
  \<open>\\<close> backslashed, printable ASCII kept, and control characters escaped. Bytes from
  \<open>0x7f\<close> upwards go through the UTF-8 decoder and the Unicode tables of the library; a
  string that contains one is left to the library function, which is a parameter.
\<close>

definition quote_ascii :: "char \<Rightarrow> string" where
  "quote_ascii c =
     (let n = (of_char c :: nat) in
      if n = 0x22 \<or> n = 0x5c then [CHR 0x5c, c]
      else if 0x20 \<le> n \<and> n < 0x7f then [c]
      else if n = 7 then [CHR 0x5c, CHR ''a'']
      else if n = 8 then [CHR 0x5c, CHR ''b'']
      else if n = 12 then [CHR 0x5c, CHR ''f'']
      else if n = 10 then [CHR 0x5c, CHR ''n'']
      else if n = 13 then [CHR 0x5c, CHR ''r'']
      else if n = 9 then [CHR 0x5c, CHR ''t'']
      else if n = 11 then [CHR 0x5c, CHR ''v'']
      else [CHR 0x5c, CHR ''x'', lowerhex (n div 16), lowerhex (n mod 16)])"

definition Sprintf_q :: "(string \<Rightarrow> string) \<Rightarrow> string \<Rightarrow> string" where
  "Sprintf_q strconv_Quote s =
     (if list_all (\<lambda>c. (of_char c :: nat) < 0x7f) s
      then [CHR 0x22] @ concat (map quote_ascii s) @ [CHR 0x22]
      else strconv_Quote s)"

subsection \<open>\<^verbatim>\<open>strings.Replace(s, old, new, 1)\<close>\<close>

text \<open>Only the first match of \<open>old\<close>, scanning from the left, is replaced.\<close>

fun strings_Replace1 :: "string \<Rightarrow> string \<Rightarrow> string \<Rightarrow> string" where
  "strings_Replace1 [] old new = (if old = [] then new else [])"
| "strings_Replace1 (c # cs) old new =
     (if take (length old) (c # cs) = old then new @ drop (length old) (c # cs)
      else c # strings_Replace1 cs old new)"

subsection \<open>Package net/url: query values\<close>

text \<open>
  \<^verbatim>\<open>url.Values\<close> is a Go map from a key to the list of its values. It is modelled as an
  association list read through \<open>map_of\<close>; every operation below depends on the list only
  through the map it denotes.
\<close>

type_synonym Values = "(string \<times> string list) list"

definition Values_Get :: "Values \<Rightarrow> string \<Rightarrow> string list" where
  "Values_Get v key = (case map_of v key of None \<Rightarrow> [] | Some vs \<Rightarrow> vs)"

text \<open>\<^verbatim>\<open>v[key] = []string{value}\<close>\<close>

definition Values_Set :: "Values \<Rightarrow> string \<Rightarrow> string \<Rightarrow> Values" where
  "Values_Set v key val = AList.update key [val] v"

text \<open>\<^verbatim>\<open>v[key] = append(v[key], value)\<close>\<close>

definition Values_Add :: "Values \<Rightarrow> string \<Rightarrow> string \<Rightarrow> Values" where
  "Values_Add v key val = AList.update key (Values_Get v key @ [val]) v"

definition ishex :: "char \<Rightarrow> bool" where
  "ishex c \<longleftrightarrow> c \<in> set ''0123456789abcdefABCDEF''"

definition unhex :: "char \<Rightarrow> nat" where
  "unhex c =
     (let n = (of_char c :: nat) in
      if 0x30 \<le> n \<and> n \<le> 0x39 then n - 0x30
      else if 0x61 \<le> n \<and> n \<le> 0x66 then n - 0x61 + 10
      else if 0x41 \<le> n \<and> n \<le> 0x46 then n - 0x41 + 10
      else 0)"

text \<open>\<^verbatim>\<open>url.QueryUnescape\<close>; \<open>None\<close> is the escape error.\<close>

fun QueryUnescape :: "string \<Rightarrow> string option" where
  "QueryUnescape [] = Some []"
| "QueryUnescape (c # cs) =
     (if c = CHR ''%'' then
        (case cs of
           a # b # rest \<Rightarrow>
             (if ishex a \<and> ishex b
              then map_option ((#) (char_of (unhex a * 16 + unhex b))) (QueryUnescape rest)
              else None)
         | _ \<Rightarrow> None)
      else if c = CHR ''+'' then map_option ((#) CHR '' '') (QueryUnescape cs)
      else map_option ((#) c) (QueryUnescape cs))"

definition upperhex :: "nat \<Rightarrow> char" where
  "upperhex n = ''0123456789ABCDEF'' ! n"

text \<open>
  \<^verbatim>\<open>shouldEscape(c, encodeQueryComponent)\<close>: letters, digits and \<open>- _ . ~\<close> are kept,
  every other byte is escaped.
\<close>

definition shouldEscape :: "char \<Rightarrow> bool" where
  "shouldEscape c \<longleftrightarrow>
     c \<notin> set ''abcdefghijklmnopqrstuvwxyzABCDEFGHIJKLMNOPQRSTUVWXYZ0123456789-_.~''"

definition escape_byte :: "char \<Rightarrow> string" where
  "escape_byte c =
     (if c = CHR '' '' then ''+''
      else if shouldEscape c
      then [CHR ''%'', upperhex (of_char c div 16), upperhex (of_char c mod 16)]
      else [c])"

definition QueryEscape :: "string \<Rightarrow> string" where
  "QueryEscape s = concat (map escape_byte s)"

text \<open>
  \<^verbatim>\<open>url.ParseQuery\<close> as \<^verbatim>\<open>URL.Query\<close> uses it: the error is dropped and a pair whose key
  or value does not unescape is skipped. Pairs are separated by \<open>&\<close> or \<open>;\<close> (the
  standard library of the time the package was written).
\<close>

definition is_sep :: "char \<Rightarrow> bool" where
  "is_sep c \<longleftrightarrow> c = CHR ''&'' \<or> c = CHR '';''"

definition parse_pair :: "Values \<Rightarrow> string \<Rightarrow> Values" where
  "parse_pair m kv =
     (if kv = [] then m
      else
        let key = takeWhile (\<lambda>c. c \<noteq> CHR ''='') kv;
            val = drop (Suc (length key)) kv
        in case QueryUnescape key of
             None \<Rightarrow> m
           | Some key' \<Rightarrow>
               (case QueryUnescape val of
                  None \<Rightarrow> m
                | Some val' \<Rightarrow> Values_Add m key' val'))"

function parseQuery :: "Values \<Rightarrow> string \<Rightarrow> Values" where
  "parseQuery m query =
     (if query = [] then m
      else
        let key = takeWhile (\<lambda>c. \<not> is_sep c) query;
            query' = drop (Suc (length key)) query
        in parseQuery (parse_pair m key) query')"
  by pat_completeness auto
termination
  by (relation "measure (\<lambda>(m, query). length query)") auto

declare parseQuery.simps [simp del]

definition ParseQuery :: "string \<Rightarrow> Values" where
  "ParseQuery query = parseQuery [] query"

text \<open>
  \<^verbatim>\<open>Values.Encode\<close>: the keys in sorted order, every value of a key as
  \<open>QueryEscape key = QueryEscape value\<close>, joined by \<open>&\<close>.
\<close>

definition Encode_pairs :: "Values \<Rightarrow> string list" where
  "Encode_pairs v =
     concat (map (\<lambda>k. map (\<lambda>val. QueryEscape k @ ''='' @ QueryEscape val) (Values_Get v k))
                 (sort (remdups (map fst v))))"

fun join_amp :: "string list \<Rightarrow> string" where
  "join_amp [] = []"
| "join_amp [p] = p"
| "join_amp (p # q # ps) = p @ ''&'' @ join_amp (q # ps)"

definition Values_Encode :: "Values \<Rightarrow> string" where
  "Values_Encode v = join_amp (Encode_pairs v)"

text \<open>The fields of \<^verbatim>\<open>url.URL\<close>; the command reads and writes \<open>RawQuery\<close> only.\<close>

record URL =
  Scheme :: string
  Opaque :: string
  User :: "(string \<times> string option) option"
  Host :: string
  Path :: string
  RawPath :: string
  ForceQuery :: bool
  RawQuery :: string
  Fragment :: string

definition URL_Query :: "URL \<Rightarrow> Values" where
  "URL_Query u = ParseQuery (RawQuery u)"

subsection \<open>Package gouuid\<close>

text \<open>
  A \<^verbatim>\<open>uuid.UUID\<close> is an array of 16 bytes. \<^verbatim>\<open>UUID.String\<close> prints the byte groups
  \<open>0..3\<close>, \<open>4..5\<close>, \<open>6..7\<close>, \<open>8..9\<close>, \<open>10..15\<close> with \<^verbatim>\<open>%x\<close>, separated by dashes.
\<close>

typedef UUID = "{bs :: 8 word list. length bs = 16}"
  by (rule exI [of _ "replicate 16 0"]) simp

definition UUID_String :: "UUID \<Rightarrow> string" where
  "UUID_String u =
     (let bs = Rep_UUID u in
      Sprintf_x (take 4 bs) @ ''-'' @ Sprintf_x (take 2 (drop 4 bs)) @ ''-'' @
      Sprintf_x (take 2 (drop 6 bs)) @ ''-'' @ Sprintf_x (take 2 (drop 8 bs)) @ ''-'' @
      Sprintf_x (drop 10 bs))"

subsection \<open>Collaborators and the trace of a run\<close>

text \<open>
  Every interaction of the command with the outside is an event. A run appends its events
  to a trace; a collaborator answers a call as a function of the trace so far (the
  history of the run), so that two calls of the same operation may answer differently.
\<close>

datatype event =
    Call_GetApp string
  | Call_GetService string
  | Call_GetCurrentOrg
  | Call_GetCurrentSpace
  | Call_ApiEndpoint
  | Call_IsSSLDisabled
  | Call_CliCommand "string list"
  | Call_CliCommandWithoutTerminalOutput "string list"
  | Call_Download string
  | Call_passwordReader int
  | Call_NewV4
  | Call_rand_Read nat
  | Log_Printf string

text \<open>
  \<^verbatim>\<open>plugin.CliConnection\<close>, as far as the command uses it. \<open>GetApp\<close> and \<open>GetService\<close>
  answer with the \<open>Guid\<close> of the model, \<open>GetCurrentOrg\<close> and \<open>GetCurrentSpace\<close> with its
  \<open>Name\<close>, the two command runners with the output lines.
\<close>

record CliConnection =
  GetApp :: "event list \<Rightarrow> string \<Rightarrow> string + string"
  GetService :: "event list \<Rightarrow> string \<Rightarrow> string + string"
  GetCurrentOrg :: "event list \<Rightarrow> string + string"
  GetCurrentSpace :: "event list \<Rightarrow> string + string"
  ApiEndpoint :: "event list \<Rightarrow> string + string"
  IsSSLDisabled :: "event list \<Rightarrow> string + bool"
  CliCommand :: "event list \<Rightarrow> string list \<Rightarrow> string + string list"
  CliCommandWithoutTerminalOutput :: "event list \<Rightarrow> string list \<Rightarrow> string + string list"

text \<open>\<^verbatim>\<open>Downloader.Download\<close> and the \<^verbatim>\<open>passwordReader\<close> function.\<close>

type_synonym Downloader = "event list \<Rightarrow> string \<Rightarrow> string"
type_synonym passwordReader = "event list \<Rightarrow> int \<Rightarrow> string + string"

datatype flag = Flag_adapter_type | Flag_drain_name | Flag_type | Flag_username

text \<open>
  The imported library functions that are not modelled above. \<open>flags_ParseArgs\<close> is the
  go-flags parser over the tagged fields of \<open>createDrainOpts\<close>: it fails, or yields the
  options it found, in the order of the command line, and the remaining positional
  arguments. \<open>uuid_NewV4\<close> and \<open>rand_Read\<close> draw on the random source.
\<close>

record lib =
  flags_ParseArgs :: "string list \<Rightarrow> string + ((flag \<times> string) list \<times> string list)"
  url_Parse :: "string \<Rightarrow> string + URL"
  url_String :: "URL \<Rightarrow> string"
  path_Dir :: "string \<Rightarrow> string"
  sha256_Sum256 :: "8 word list \<Rightarrow> 8 word list"
  strconv_Quote :: "string \<Rightarrow> string"
  uuid_NewV4 :: "event list \<Rightarrow> string + UUID"
  rand_Read :: "event list \<Rightarrow> nat \<Rightarrow> string + 8 word list"

text \<open>
  A run ends in a value or in a fatal exit. \<open>Fatalf\<close> is the \<open>Logger\<close> of the command,
  \<open>log_Fatalf\<close> the one of package log, which \<open>serviceName\<close> calls. Neither returns: the
  first panics in the tests and exits in the plugin, the second exits.
\<close>

datatype exit = Fatalf string | log_Fatalf string

type_synonym 'a run = "event list \<Rightarrow> event list \<times> (exit + 'a)"

definition ret :: "'a \<Rightarrow> 'a run" where
  "ret x tr = (tr, Inr x)"

definition abort :: "exit \<Rightarrow> 'a run" where
  "abort e tr = (tr, Inl e)"

definition bnd :: "'a run \<Rightarrow> ('a \<Rightarrow> 'b run) \<Rightarrow> 'b run" where
  "bnd m f tr = (case m tr of (tr', Inl e) \<Rightarrow> (tr', Inl e) | (tr', Inr x) \<Rightarrow> f x tr')"

definition call :: "event \<Rightarrow> (event list \<Rightarrow> 'r) \<Rightarrow> 'r run" where
  "call ev answer tr = (tr @ [ev], Inr (answer tr))"

text \<open>\<^verbatim>\<open>if err != nil { log.Fatalf("%s", err) }\<close>\<close>

definition orFatal :: "(string + 'a) run \<Rightarrow> 'a run" where
  "orFatal m = bnd m (\<lambda>r. case r of Inl err \<Rightarrow> abort (Fatalf err) | Inr x \<Rightarrow> ret x)"

definition cli_GetApp :: "CliConnection \<Rightarrow> string \<Rightarrow> (string + string) run" where
  "cli_GetApp cli name = call (Call_GetApp name) (\<lambda>tr. GetApp cli tr name)"

definition cli_GetService :: "CliConnection \<Rightarrow> string \<Rightarrow> (string + string) run" where
  "cli_GetService cli name = call (Call_GetService name) (\<lambda>tr. GetService cli tr name)"

definition cli_GetCurrentOrg :: "CliConnection \<Rightarrow> (string + string) run" where
  "cli_GetCurrentOrg cli = call Call_GetCurrentOrg (GetCurrentOrg cli)"

definition cli_GetCurrentSpace :: "CliConnection \<Rightarrow> (string + string) run" where
  "cli_GetCurrentSpace cli = call Call_GetCurrentSpace (GetCurrentSpace cli)"

definition cli_ApiEndpoint :: "CliConnection \<Rightarrow> (string + string) run" where
  "cli_ApiEndpoint cli = call Call_ApiEndpoint (ApiEndpoint cli)"

definition cli_IsSSLDisabled :: "CliConnection \<Rightarrow> (string + bool) run" where
  "cli_IsSSLDisabled cli = call Call_IsSSLDisabled (IsSSLDisabled cli)"

definition cli_CliCommand :: "CliConnection \<Rightarrow> string list \<Rightarrow> (string + string list) run" where
  "cli_CliCommand cli args = call (Call_CliCommand args) (\<lambda>tr. CliCommand cli tr args)"

definition cli_CliCommandWithoutTerminalOutput ::
    "CliConnection \<Rightarrow> string list \<Rightarrow> (string + string list) run" where
  "cli_CliCommandWithoutTerminalOutput cli args =
     call (Call_CliCommandWithoutTerminalOutput args)
          (\<lambda>tr. CliCommandWithoutTerminalOutput cli tr args)"

definition NewV4 :: "lib \<Rightarrow> (string + UUID) run" where
  "NewV4 L = call Call_NewV4 (uuid_NewV4 L)"

definition Printf :: "string \<Rightarrow> unit run" where
  "Printf msg = call (Log_Printf msg) (\<lambda>tr. ())"

subsection \<open>The command\<close>

record createDrainOpts =
  AppOrServiceName :: string
  AdapterType :: string
  DrainName :: string
  DrainType :: string
  DrainURL :: string
  Username :: string
  Password :: string

fun set_flag :: "createDrainOpts \<Rightarrow> flag \<times> string \<Rightarrow> createDrainOpts" where
  "set_flag opts (Flag_adapter_type, v) = opts\<lparr>AdapterType := v\<rparr>"
| "set_flag opts (Flag_drain_name, v) = opts\<lparr>DrainName := v\<rparr>"
| "set_flag opts (Flag_type, v) = opts\<lparr>DrainType := v\<rparr>"
| "set_flag opts (Flag_username, v) = opts\<lparr>Username := v\<rparr>"

definition serviceName :: "lib \<Rightarrow> createDrainOpts \<Rightarrow> string run" where
  "serviceName L f =
     (if DrainName f \<noteq> [] then ret (DrainName f)
      else bnd (NewV4 L) (\<lambda>r.
        case r of
          Inl err \<Rightarrow> abort (log_Fatalf err)
        | Inr guid \<Rightarrow> ret (''cf-drain-'' @ UUID_String guid)))"

definition validDrainType :: "string \<Rightarrow> bool" where
  "validDrainType drainType \<longleftrightarrow>
     drainType = ''logs'' \<or> drainType = ''metrics'' \<or> drainType = ''all''"

definition createAndBindService ::
    "lib \<Rightarrow> CliConnection \<Rightarrow> URL \<Rightarrow> string \<Rightarrow> string \<Rightarrow> unit run" where
  "createAndBindService L cli u appName svcName =
     bnd (orFatal (cli_GetApp cli appName)) (\<lambda>_.
     bnd (orFatal (cli_CliCommand cli
            [''create-user-provided-service'', svcName, ''-l'', url_String L u])) (\<lambda>_.
     bnd (orFatal (cli_CliCommand cli [''bind-service'', appName, svcName])) (\<lambda>_.
     ret ())))"

definition sourceID :: "CliConnection \<Rightarrow> string \<Rightarrow> (string + string) run" where
  "sourceID cli appOrServiceName =
     bnd (cli_GetApp cli appOrServiceName) (\<lambda>r.
       case r of
         Inl err \<Rightarrow>
           bnd (cli_GetService cli appOrServiceName) (\<lambda>r'.
             case r' of
               Inl err' \<Rightarrow> ret (Inl err')
             | Inr svc \<Rightarrow> ret (Inr svc))
       | Inr app \<Rightarrow> ret (Inr app))"

definition createUser :: "lib \<Rightarrow> CliConnection \<Rightarrow> string \<Rightarrow> string run" where
  "createUser L cli username =
     bnd (orFatal (call (Call_rand_Read 20) (\<lambda>tr. rand_Read L tr 20))) (\<lambda>data.
     let password = Sprintf_x (sha256_Sum256 L data) in
     bnd (orFatal (cli_CliCommand cli [''create-user'', username, password])) (\<lambda>_.
     bnd (orFatal (cli_GetCurrentOrg cli)) (\<lambda>org.
     bnd (orFatal (cli_GetCurrentSpace cli)) (\<lambda>space.
     bnd (orFatal (cli_CliCommand cli
            [''set-space-role'', username, org, space, ''SpaceDeveloper''])) (\<lambda>_.
     ret password)))))"

text \<open>The loop over \<open>envCommands\<close>.\<close>

primrec setEnvs :: "CliConnection \<Rightarrow> string list list \<Rightarrow> unit run" where
  "setEnvs cli [] = ret ()"
| "setEnvs cli (cmd # cmds) =
     bnd (orFatal (cli_CliCommandWithoutTerminalOutput cli cmd)) (\<lambda>_. setEnvs cli cmds)"

definition envCommands where
  "envCommands svcName srcID hostName uaaAddr username password logCacheAddr syslogURL
     skipCertVerify groupName =
     [[''set-env'', svcName, ''SOURCE_ID'', srcID],
      [''set-env'', svcName, ''SOURCE_HOST_NAME'', hostName],
      [''set-env'', svcName, ''UAA_URL'', uaaAddr],
      [''set-env'', svcName, ''CLIENT_ID'', ''cf''],
      [''set-env'', svcName, ''USERNAME'', username],
      [''set-env'', svcName, ''PASSWORD'', password],
      [''set-env'', svcName, ''LOG_CACHE_HTTP_ADDR'', logCacheAddr],
      [''set-env'', svcName, ''SYSLOG_URL'', syslogURL],
      [''set-env'', svcName, ''SKIP_CERT_VERIFY'', skipCertVerify],
      [''set-env'', svcName, ''GROUP_NAME'', groupName],
      [''set-env'', svcName, ''DRAIN_SCOPE'', ''single'']]"

definition pushSyslogForwarder ::
    "lib \<Rightarrow> CliConnection \<Rightarrow> URL \<Rightarrow> string \<Rightarrow> string \<Rightarrow> string \<Rightarrow> string \<Rightarrow>
     Downloader \<Rightarrow> passwordReader \<Rightarrow> unit run" where
  "pushSyslogForwarder L cli u appOrServiceName svcName username0 password0 d p =
     bnd (sourceID cli appOrServiceName) (\<lambda>r.
     case r of
       Inl err \<Rightarrow>
         abort (Fatalf (''unknown application or service '' @
                        Sprintf_q (strconv_Quote L) appOrServiceName))
     | Inr srcID \<Rightarrow>
     bnd (orFatal (cli_GetCurrentOrg cli)) (\<lambda>org.
     bnd (orFatal (cli_GetCurrentSpace cli)) (\<lambda>space.
     bnd (orFatal (cli_ApiEndpoint cli)) (\<lambda>apiEndpoint.
     bnd (if username0 = []
          then bnd (createUser L cli (''drain-'' @ srcID)) (\<lambda>pw. ret (''drain-'' @ srcID, pw))
          else ret (username0, password0)) (\<lambda>(username, password1).
     bnd (if username \<noteq> [] \<and> password1 = []
          then
            bnd (Printf (''Enter a password for '' @ username @ '': '')) (\<lambda>_.
            bnd (orFatal (call (Call_passwordReader 0) (\<lambda>tr. p tr 0))) (\<lambda>bytePassword.
            if bytePassword = [] then abort (Fatalf ''Password cannot be blank.'')
            else ret bytePassword))
          else ret password1) (\<lambda>password.
     bnd (call (Call_Download ''syslog_forwarder'') (\<lambda>tr. d tr ''syslog_forwarder'')) (\<lambda>file.
     bnd (orFatal (cli_CliCommand cli
            [''push'', svcName, ''-p'', path_Dir L file, ''-b'', ''binary_buildpack'',
             ''-c'', ''./syslog_forwarder'', ''--no-start''])) (\<lambda>_.
     bnd (orFatal (cli_IsSSLDisabled cli)) (\<lambda>skipCertVerify.
     let hostName = org @ ''.'' @ space @ ''.'' @ appOrServiceName;
         uaaAddr = strings_Replace1 apiEndpoint ''api.'' ''uaa.'';
         logCacheAddr = strings_Replace1 apiEndpoint ''api.'' ''log-cache.''
     in
     bnd (orFatal (NewV4 L)) (\<lambda>groupName.
     bnd (setEnvs cli
            (envCommands svcName srcID hostName uaaAddr username password logCacheAddr
               (url_String L u) (Sprintf_t skipCertVerify) (UUID_String groupName))) (\<lambda>_.
     bnd (orFatal (cli_CliCommand cli [''start'', svcName])) (\<lambda>_.
     ret ()))))))))))))"

definition opts0 :: createDrainOpts where
  "opts0 = \<lparr>AppOrServiceName = [], AdapterType = ''service'', DrainName = [], DrainType = [],
            DrainURL = [], Username = [], Password = []\<rparr>"

definition unsupported_adapter :: string where
  "unsupported_adapter =
     ''unsupported adapter type, must be '' @ [CHR 0x27] @ ''service'' @ [CHR 0x27] @
     '' or '' @ [CHR 0x27] @ ''application'' @ [CHR 0x27]"

text \<open>
  The drain type is written into the query of the parsed URL:
  \<^verbatim>\<open>qValues := u.Query(); qValues.Set("drain-type", t); u.RawQuery = qValues.Encode()\<close>.
\<close>

definition setDrainType :: "URL \<Rightarrow> string \<Rightarrow> URL" where
  "setDrainType u t = u\<lparr>RawQuery := Values_Encode (Values_Set (URL_Query u) ''drain-type'' t)\<rparr>"

definition CreateDrain ::
    "lib \<Rightarrow> CliConnection \<Rightarrow> string list \<Rightarrow> Downloader \<Rightarrow> passwordReader \<Rightarrow> unit run" where
  "CreateDrain L cli args0 d p =
     (case flags_ParseArgs L args0 of
        Inl err \<Rightarrow> abort (Fatalf err)
      | Inr (found, args) \<Rightarrow>
          let opts = foldl set_flag opts0 found in
          if length args \<noteq> 2
          then abort (Fatalf (''Invalid arguments, expected 2, got '' @
                              Sprintf_d (length args) @ ''.''))
          else
            let opts = opts\<lparr>AppOrServiceName := args ! 0, DrainURL := args ! 1\<rparr> in
            (case url_Parse L (DrainURL opts) of
              Inl err \<Rightarrow> abort (Fatalf (''Invalid syslog drain URL: '' @ err))
            | Inr u0 \<Rightarrow>
                bnd (if DrainType opts \<noteq> []
                     then
                       if \<not> validDrainType (DrainType opts)
                       then abort (Fatalf (''Invalid type: '' @ DrainType opts))
                       else ret (setDrainType u0 (DrainType opts))
                     else ret u0) (\<lambda>u.
                if AdapterType opts = ''service'' then
                  bnd (serviceName L opts) (\<lambda>name.
                  createAndBindService L cli u (AppOrServiceName opts) name)
                else if AdapterType opts = ''application'' then
                  bnd (serviceName L opts) (\<lambda>name.
                  pushSyslogForwarder L cli u (AppOrServiceName opts) name
                    (Username opts) (Password opts) d p)
                else abort (Fatalf unsupported_adapter))))"

subsection \<open>The phases of the application adapter\<close>

text \<open>
  \<open>pushSyslogForwarder\<close> cut at three points, for the proofs: the session data (lines
  146 to 157 of the source), the credentials (lines 159 to 175) and the deployment
  (lines 177 to 229). Lemma \<open>pushSyslogForwarder_phases\<close> shows that the function is
  the sequence of these.
\<close>

definition sessionInfo :: "CliConnection \<Rightarrow> (string \<times> string \<times> string) run" where
  "sessionInfo cli =
     bnd (orFatal (cli_GetCurrentOrg cli)) (\<lambda>org.
     bnd (orFatal (cli_GetCurrentSpace cli)) (\<lambda>space.
     bnd (orFatal (cli_ApiEndpoint cli)) (\<lambda>apiEndpoint.
     ret (org, space, apiEndpoint))))"

definition credentials ::
    "lib \<Rightarrow> CliConnection \<Rightarrow> passwordReader \<Rightarrow> string \<Rightarrow> string \<Rightarrow> string \<Rightarrow>
     (string \<times> string) run" where
  "credentials L cli p srcID username0 password0 =
     bnd (if username0 = []
          then bnd (createUser L cli (''drain-'' @ srcID)) (\<lambda>pw. ret (''drain-'' @ srcID, pw))
          else ret (username0, password0)) (\<lambda>(username, password1).
     bnd (if username \<noteq> [] \<and> password1 = []
          then
            bnd (Printf (''Enter a password for '' @ username @ '': '')) (\<lambda>_.
            bnd (orFatal (call (Call_passwordReader 0) (\<lambda>tr. p tr 0))) (\<lambda>bytePassword.
            if bytePassword = [] then abort (Fatalf ''Password cannot be blank.'')
            else ret bytePassword))
          else ret password1) (\<lambda>password.
     ret (username, password)))"

definition push_command :: "string \<Rightarrow> string \<Rightarrow> string list" where
  "push_command svcName dir =
     [''push'', svcName, ''-p'', dir, ''-b'', ''binary_buildpack'',
      ''-c'', ''./syslog_forwarder'', ''--no-start'']"

definition deployForwarder where
  "deployForwarder L cli d u appOrServiceName svcName srcID org space apiEndpoint
     username password =
     bnd (call (Call_Download ''syslog_forwarder'') (\<lambda>tr. d tr ''syslog_forwarder'')) (\<lambda>file.
     bnd (orFatal (cli_CliCommand cli (push_command svcName (path_Dir L file)))) (\<lambda>_.
     bnd (orFatal (cli_IsSSLDisabled cli)) (\<lambda>skipCertVerify.
     bnd (orFatal (NewV4 L)) (\<lambda>groupName.
     bnd (setEnvs cli
            (envCommands svcName srcID (org @ ''.'' @ space @ ''.'' @ appOrServiceName)
               (strings_Replace1 apiEndpoint ''api.'' ''uaa.'') username password
               (strings_Replace1 apiEndpoint ''api.'' ''log-cache.'')
               (url_String L u) (Sprintf_t skipCertVerify) (UUID_String groupName))) (\<lambda>_.
     bnd (orFatal (cli_CliCommand cli [''start'', svcName])) (\<lambda>_.
     ret ()))))))"

text \<open>Everything before the download (lines 141 to 175), with the values it hands on.\<close>

definition prepare ::
    "lib \<Rightarrow> CliConnection \<Rightarrow> passwordReader \<Rightarrow> string \<Rightarrow> string \<Rightarrow> string \<Rightarrow>
     (string \<times> string \<times> string \<times> string \<times> string \<times> string) run" where
  "prepare L cli p appOrServiceName username0 password0 =
     bnd (sourceID cli appOrServiceName) (\<lambda>r.
     case r of
       Inl err \<Rightarrow>
         abort (Fatalf (''unknown application or service '' @
                        Sprintf_q (strconv_Quote L) appOrServiceName))
     | Inr srcID \<Rightarrow>
         bnd (sessionInfo cli) (\<lambda>(org, space, apiEndpoint).
         bnd (credentials L cli p srcID username0 password0) (\<lambda>(username, password).
         ret (srcID, org, space, apiEndpoint, username, password))))"

text \<open>The end of the deployment: the loop over the \<open>set-env\<close> commands and the start.\<close>

definition configureAndStart :: "CliConnection \<Rightarrow> string \<Rightarrow> string list list \<Rightarrow> unit run" where
  "configureAndStart cli svcName cmds =
     bnd (setEnvs cli cmds) (\<lambda>_.
     bnd (orFatal (cli_CliCommand cli [''start'', svcName])) (\<lambda>_.
     ret ()))"

text \<open>
  \<open>emits P R m\<close>: a run of \<open>m\<close> extends the trace by events that satisfy \<open>P\<close>, and a
  value it returns satisfies \<open>R\<close>. \<open>stops S m\<close>: in a run of \<open>m\<close>, an event after which
  \<open>S\<close> asks for the exit \<open>x\<close> is the last one, and the run ends in \<open>x\<close>.
\<close>

definition emits :: "(event \<Rightarrow> bool) \<Rightarrow> ('a \<Rightarrow> bool) \<Rightarrow> 'a run \<Rightarrow> bool" where
  "emits P R m \<longleftrightarrow>
     (\<forall>tr. \<exists>new. fst (m tr) = tr @ new \<and> list_all P new \<and>
                 (\<forall>x. snd (m tr) = Inr x \<longrightarrow> R x))"

definition stops :: "(event list \<Rightarrow> event \<Rightarrow> exit option) \<Rightarrow> 'a run \<Rightarrow> bool" where
  "stops S m \<longleftrightarrow>
     (\<forall>tr. \<exists>new. fst (m tr) = tr @ new \<and>
        (\<forall>pre ev post x. new = pre @ ev # post \<longrightarrow> S (tr @ pre) ev = Some x \<longrightarrow>
           post = [] \<and> snd (m tr) = Inl x))"

subsection \<open>Notions used to state the properties\<close>

text \<open>The commands handed to the two command runners, in the order of the trace.\<close>

fun command_args :: "event \<Rightarrow> string list option" where
  "command_args (Call_CliCommand args) = Some args"
| "command_args (Call_CliCommandWithoutTerminalOutput args) = Some args"
| "command_args ev = None"

definition commands :: "event list \<Rightarrow> string list list" where
  "commands tr = List.map_filter command_args tr"

fun quiet_args :: "event \<Rightarrow> string list option" where
  "quiet_args (Call_CliCommandWithoutTerminalOutput args) = Some args"
| "quiet_args ev = None"

text \<open>The commands run without terminal output: the \<open>set-env\<close> commands.\<close>

definition quiet_commands :: "event list \<Rightarrow> string list list" where
  "quiet_commands tr = List.map_filter quiet_args tr"

text \<open>
  The error, if any, with which the \<open>CliConnection\<close> answers the call \<open>ev\<close> after the
  history \<open>h\<close>.
\<close>

definition error_of :: "string + 'a \<Rightarrow> string option" where
  "error_of r = (case r of Inl e \<Rightarrow> Some e | Inr x \<Rightarrow> None)"

fun executor_error :: "CliConnection \<Rightarrow> event list \<Rightarrow> event \<Rightarrow> string option" where
  "executor_error cli h (Call_GetApp name) = error_of (GetApp cli h name)"
| "executor_error cli h (Call_GetService name) = error_of (GetService cli h name)"
| "executor_error cli h Call_GetCurrentOrg = error_of (GetCurrentOrg cli h)"
| "executor_error cli h Call_GetCurrentSpace = error_of (GetCurrentSpace cli h)"
| "executor_error cli h Call_ApiEndpoint = error_of (ApiEndpoint cli h)"
| "executor_error cli h Call_IsSSLDisabled = error_of (IsSSLDisabled cli h)"
| "executor_error cli h (Call_CliCommand args) = error_of (CliCommand cli h args)"
| "executor_error cli h (Call_CliCommandWithoutTerminalOutput args) =
     error_of (CliCommandWithoutTerminalOutput cli h args)"
| "executor_error cli h ev = None"

fun is_lookup :: "event \<Rightarrow> bool" where
  "is_lookup (Call_GetApp name) = True"
| "is_lookup (Call_GetService name) = True"
| "is_lookup ev = False"

text \<open>
  The pattern the test suite matches a generated name against:
  \<^verbatim>\<open>[0-9a-f]{8}-([0-9a-f]{4}-){3}[0-9a-f]{12}\<close>.
\<close>

definition is_lowerhex :: "char \<Rightarrow> bool" where
  "is_lowerhex c \<longleftrightarrow> c \<in> set ''0123456789abcdef''"

definition uuid_pattern :: "string \<Rightarrow> bool" where
  "uuid_pattern s \<longleftrightarrow>
     length s = 36 \<and>
     list_all is_lowerhex (take 8 s) \<and> s ! 8 = CHR ''-'' \<and>
     list_all is_lowerhex (take 4 (drop 9 s)) \<and> s ! 13 = CHR ''-'' \<and>
     list_all is_lowerhex (take 4 (drop 14 s)) \<and> s ! 18 = CHR ''-'' \<and>
     list_all is_lowerhex (take 4 (drop 19 s)) \<and> s ! 23 = CHR ''-'' \<and>
     list_all is_lowerhex (drop 24 s)"

text \<open>The number a string of decimal digits denotes.\<close>

definition decimal_value :: "string \<Rightarrow> nat" where
  "decimal_value s = foldl (\<lambda>a c. 10 * a + (of_char c - 48)) 0 s"


subsection \<open>Collaborators for concrete runs\<close>

text \<open>
  Stand-ins in the manner of the stubs of the test suite: a session in which every call
  succeeds, with the values of \<^verbatim>\<open>create_drain_test.go\<close>. The library stand-ins agree
  with the library on the command lines and URLs used below (long options followed by
  their value, URLs of the form \<open>scheme://host?query\<close>).
\<close>

definition demo_cli :: CliConnection where
  "demo_cli =
     \<lparr>GetApp = (\<lambda>tr name. Inr ''application-guid''),
      GetService = (\<lambda>tr name. Inr ''service-instance-guid''),
      GetCurrentOrg = (\<lambda>tr. Inr ''org-name''),
      GetCurrentSpace = (\<lambda>tr. Inr ''space-name''),
      ApiEndpoint = (\<lambda>tr. Inr ''api.example.com''),
      IsSSLDisabled = (\<lambda>tr. Inr False),
      CliCommand = (\<lambda>tr args. Inr []),
      CliCommandWithoutTerminalOutput = (\<lambda>tr args. Inr [])\<rparr>"

fun demo_flags :: "string list \<Rightarrow> (flag \<times> string) list \<times> string list" where
  "demo_flags (a # v # rest) =
     (if a = ''--adapter-type'' then apfst ((#) (Flag_adapter_type, v)) (demo_flags rest)
      else if a = ''--drain-name'' then apfst ((#) (Flag_drain_name, v)) (demo_flags rest)
      else if a = ''--type'' then apfst ((#) (Flag_type, v)) (demo_flags rest)
      else if a = ''--username'' then apfst ((#) (Flag_username, v)) (demo_flags rest)
      else apsnd ((#) a) (demo_flags (v # rest)))"
| "demo_flags args = ([], args)"

definition demo_Parse :: "string \<Rightarrow> string + URL" where
  "demo_Parse s =
     (let scheme = takeWhile (\<lambda>c. c \<noteq> CHR '':'') s;
          rest = drop (length scheme + 3) s;
          host = takeWhile (\<lambda>c. c \<noteq> CHR ''?'') rest
      in if scheme = [] then Inl (''parse '' @ s @ '': missing protocol scheme'')
         else Inr \<lparr>Scheme = scheme, Opaque = [], User = None, Host = host, Path = [],
                   RawPath = [], ForceQuery = False,
                   RawQuery = drop (Suc (length host)) rest, Fragment = []\<rparr>)"

definition demo_String :: "URL \<Rightarrow> string" where
  "demo_String u =
     Scheme u @ ''://'' @ Host u @ (if RawQuery u = [] then [] else ''?'' @ RawQuery u)"

definition demo_Dir :: "string \<Rightarrow> string" where
  "demo_Dir s = rev (drop 1 (dropWhile (\<lambda>c. c \<noteq> CHR ''/'') (rev s)))"

text \<open>The \<open>n\<close>-th generated identifier: \<open>n\<close> is the length of the history.\<close>

definition demo_uuid :: "nat \<Rightarrow> UUID" where
  "demo_uuid n =
     Abs_UUID [of_nat n, 0x11, 0x22, 0x33, 0x44, 0x55, 0x46, 0x77, 0x88, 0x99, 0xaa, 0xbb,
               0xcc, 0xdd, 0xee, 0xff]"

definition demo_lib :: lib where
  "demo_lib =
     \<lparr>flags_ParseArgs = (\<lambda>args. Inr (demo_flags args)),
      url_Parse = demo_Parse,
      url_String = demo_String,
      path_Dir = demo_Dir,
      sha256_Sum256 = (\<lambda>bs. replicate 32 (of_nat (length bs))),
      strconv_Quote = (\<lambda>s. [CHR 0x22] @ s @ [CHR 0x22]),
      uuid_NewV4 = (\<lambda>tr. Inr (demo_uuid (length tr))),
      rand_Read = (\<lambda>tr n. Inr (replicate n 7))\<rparr>"

definition demo_d :: Downloader where
  "demo_d tr asset = ''/downloaded/temp/dir/'' @ asset"

definition demo_p :: passwordReader where
  "demo_p tr fd = Inr ''some-password''"

text \<open>
  The events of the phase before the download: no \<open>set-env\<close>, and no command but the two
  that create the user and give it its role.
\<close>

fun prepare_event :: "event \<Rightarrow> bool" where
  "prepare_event (Call_CliCommand c) \<longleftrightarrow>
     c = [''create-user'', c ! 1, c ! 2] \<or>
     c = [''set-space-role'', c ! 1, c ! 2, c ! 3, ''SpaceDeveloper'']"
| "prepare_event (Call_CliCommandWithoutTerminalOutput c) \<longleftrightarrow> False"
| "prepare_event (Call_Download asset) \<longleftrightarrow> False"
| "prepare_event Call_IsSSLDisabled \<longleftrightarrow> False"
| "prepare_event Call_NewV4 \<longleftrightarrow> False"
| "prepare_event ev \<longleftrightarrow> True"

text \<open>The values the phase before the download hands on are answers of the session.\<close>

definition prepared ::
    "CliConnection \<Rightarrow> string \<Rightarrow> string \<times> string \<times> string \<times> string \<times> string \<times> string \<Rightarrow>
     bool" where
  "prepared cli target x \<longleftrightarrow>
     (case x of (srcID, org, space, apiEndpoint, username, password) \<Rightarrow>
        ((\<exists>h. GetApp cli h target = Inr srcID) \<or> (\<exists>h. GetService cli h target = Inr srcID)) \<and>
        (\<exists>h. GetCurrentOrg cli h = Inr org) \<and>
        (\<exists>h. GetCurrentSpace cli h = Inr space) \<and>
        (\<exists>h. ApiEndpoint cli h = Inr apiEndpoint))"

text \<open>
  The commands of the application adapter on the forwarder \<open>name\<close>, and the two user
  commands.
\<close>

definition forwarder_command :: "string \<Rightarrow> string list \<Rightarrow> bool" where
  "forwarder_command name c \<longleftrightarrow>
     c = push_command name (c ! 3) \<or>
     c = [''set-env'', name, c ! 2, c ! 3] \<or>
     c = [''start'', name] \<or>
     c = [''create-user'', c ! 1, c ! 2] \<or>
     c = [''set-space-role'', c ! 1, c ! 2, c ! 3, ''SpaceDeveloper'']"

definition forwarder_event :: "string \<Rightarrow> event \<Rightarrow> bool" where
  "forwarder_event name ev =
     (case command_args ev of None \<Rightarrow> True | Some c \<Rightarrow> forwarder_command name c)"

text \<open>
  \<open>after_push L cli name tr new cmds skip g k\<close>: the events \<open>new\<close> that follow the trace
  \<open>tr\<close> contain a push of \<open>name\<close> that succeeded, then the query of the SSL setting,
  answered \<open>skip\<close>, then the generation of an identifier, answered \<open>g\<close>, then the first
  \<open>k\<close> of the commands \<open>cmds\<close>, run without terminal output, and at most the start of
  \<open>name\<close> after all of them; no command is run without terminal output before the push.
\<close>

definition after_push ::
    "lib \<Rightarrow> CliConnection \<Rightarrow> string \<Rightarrow> event list \<Rightarrow> event list \<Rightarrow> string list list \<Rightarrow>
     bool \<Rightarrow> UUID \<Rightarrow> nat \<Rightarrow> bool" where
  "after_push L cli name tr new cmds skip g k \<longleftrightarrow>
     (\<exists>pre post dir out.
        new = pre @ [Call_CliCommand (push_command name dir), Call_IsSSLDisabled, Call_NewV4] @
              map Call_CliCommandWithoutTerminalOutput (take k cmds) @ post \<and>
        quiet_commands pre = [] \<and>
        (post = [] \<or> k = length cmds \<and> post = [Call_CliCommand [''start'', name]]) \<and>
        CliCommand cli (tr @ pre) (push_command name dir) = Inr out \<and>
        IsSSLDisabled cli (tr @ pre @ [Call_CliCommand (push_command name dir)]) = Inr skip \<and>
        uuid_NewV4 L (tr @ pre @ [Call_CliCommand (push_command name dir), Call_IsSSLDisabled]) =
          Inr g)"

text \<open>The names of the eleven environment variables, in the order of the source.\<close>

definition env_names :: "string list" where
  "env_names =
     [''SOURCE_ID'', ''SOURCE_HOST_NAME'', ''UAA_URL'', ''CLIENT_ID'', ''USERNAME'', ''PASSWORD'',
      ''LOG_CACHE_HTTP_ADDR'', ''SYSLOG_URL'', ''SKIP_CERT_VERIFY'', ''GROUP_NAME'',
      ''DRAIN_SCOPE'']"

text \<open>\<open>old\<close> occurs in \<open>s\<close> at position \<open>i\<close>, and at no earlier position.\<close>

definition first_occurrence :: "string \<Rightarrow> string \<Rightarrow> nat \<Rightarrow> bool" where
  "first_occurrence old s i \<longleftrightarrow>
     i + length old \<le> length s \<and> take (length old) (drop i s) = old \<and>
     (\<forall>j<i. take (length old) (drop j s) \<noteq> old)"

text \<open>
  The exit the application adapter owes to an event: the error of the \<open>CliConnection\<close>,
  the two lookups apart.
\<close>

definition app_exit :: "CliConnection \<Rightarrow> event list \<Rightarrow> event \<Rightarrow> exit option" where
  "app_exit cli h ev =
     (if is_lookup ev then None else map_option Fatalf (executor_error cli h ev))"

definition demo_url :: URL where
  "demo_url =
     \<lparr>Scheme = ''syslog'', Opaque = [], User = None, Host = ''a.com'', Path = [],
      RawPath = [], ForceQuery = False, RawQuery = ''a=b'', Fragment = []\<rparr>"

text \<open>Sessions in which a call fails, as the tests inject failures.\<close>

definition no_app_cli :: CliConnection where
  "no_app_cli = demo_cli\<lparr>GetApp := \<lambda>tr name. Inl ''unknown app''\<rparr>"

definition unknown_cli :: CliConnection where
  "unknown_cli = no_app_cli\<lparr>GetService := \<lambda>tr name. Inl ''unknown service''\<rparr>"

definition bind_fails_cli :: CliConnection where
  "bind_fails_cli =
     demo_cli\<lparr>CliCommand :=
       \<lambda>tr args. if hd args = ''bind-service'' then Inl ''failed to bind'' else Inr []\<rparr>"

definition push_fails_cli :: CliConnection where
  "push_fails_cli =
     demo_cli\<lparr>CliCommand :=
       \<lambda>tr args. if hd args = ''push'' then Inl ''push error'' else Inr []\<rparr>"

section \<open>Properties\<close>

subsection \<open>Auxiliary facts\<close>

lemma Rep_demo_uuid:
  "Rep_UUID (demo_uuid n) =
     [of_nat n, 0x11, 0x22, 0x33, 0x44, 0x55, 0x46, 0x77, 0x88, 0x99, 0xaa, 0xbb,
      0xcc, 0xdd, 0xee, 0xff]"
  unfolding demo_uuid_def by (rule Abs_UUID_inverse) simp

lemma Password_foldl_set_flag: "Password (foldl set_flag opts found) = Password opts"
proof (induction found arbitrary: opts)
  case Nil
  show ?case by simp
next
  case (Cons fv found)
  obtain f v where fv: "fv = (f, v)" by (cases fv)
  show ?case unfolding fv using Cons [of "set_flag opts (f, v)"] by (cases f) simp_all
qed

lemma AdapterType_foldl_set_flag:
  "Flag_adapter_type \<notin> fst ` set found \<Longrightarrow>
   AdapterType (foldl set_flag opts found) = AdapterType opts"
proof (induction found arbitrary: opts)
  case Nil
  show ?case by simp
next
  case (Cons fv found)
  obtain f v where fv: "fv = (f, v)" by (cases fv)
  from Cons.prems have "f \<noteq> Flag_adapter_type" and "Flag_adapter_type \<notin> fst ` set found"
    by (auto simp: fv)
  then show ?case unfolding fv using Cons.IH [of "set_flag opts (f, v)"] by (cases f) simp_all
qed

lemma Sprintf_d_digit: "n < 10 \<Longrightarrow> Sprintf_d n = [digit_char n]"
  by (simp add: Sprintf_d.simps)

lemma decimal_value_append:
  "decimal_value (s @ [c]) = 10 * decimal_value s + (of_char c - 48)"
  by (simp add: decimal_value_def)

lemma digit_char_value: "n < 10 \<Longrightarrow> of_char (digit_char n) - 48 = n"
  by (auto simp: digit_char_def nth_Cons' split: if_splits)

lemma decimal_value_Sprintf_d: "decimal_value (Sprintf_d n) = n"
proof (induction n rule: Sprintf_d.induct)
  case (1 n)
  show ?case
  proof (cases "n < 10")
    case True
    then show ?thesis
      using decimal_value_append [of "[]" "digit_char n"]
      by (simp add: Sprintf_d_digit digit_char_value decimal_value_def)
  next
    case False
    then have "Sprintf_d n = Sprintf_d (n div 10) @ [digit_char (n mod 10)]"
      by (subst Sprintf_d.simps) simp
    then show ?thesis
      using 1 [OF False] by (simp add: decimal_value_append digit_char_value)
  qed
qed

subsection \<open>Argument count\<close>

text \<open>
  Claim C8. When the parser leaves a number of positional arguments other than 2, the
  invocation ends in \<open>Fatalf\<close> with the message
  \<open>Invalid arguments, expected 2, got n.\<close>, where \<open>n\<close> is that number in decimal, and
  the trace is unchanged: no collaborator has been called.
\<close>

theorem CreateDrain_wrong_argument_count:
  assumes "flags_ParseArgs L args0 = Inr (found, args)" and "length args \<noteq> 2"
  shows "CreateDrain L cli args0 d p tr =
           (tr, Inl (Fatalf (''Invalid arguments, expected 2, got '' @
                             Sprintf_d (length args) @ ''.''))) \<and>
         decimal_value (Sprintf_d (length args)) = length args"
  using assms by (simp add: CreateDrain_def abort_def decimal_value_Sprintf_d)

theorem CreateDrain_wrong_argument_count_witness:
  "flags_ParseArgs demo_lib [''one'', ''two'', ''three'', ''four''] =
     Inr ([], [''one'', ''two'', ''three'', ''four'']) \<and>
   length [''one'', ''two'', ''three'', ''four''] \<noteq> 2 \<and>
   CreateDrain demo_lib demo_cli [''one'', ''two'', ''three'', ''four''] demo_d demo_p [] =
     ([], Inl (Fatalf ''Invalid arguments, expected 2, got 4.''))"
proof -
  have parse: "flags_ParseArgs demo_lib [''one'', ''two'', ''three'', ''four''] =
     Inr ([], [''one'', ''two'', ''three'', ''four''])"
    by (simp add: demo_lib_def)
  have len: "length [''one'', ''two'', ''three'', ''four''] \<noteq> 2" by simp
  show ?thesis
    using CreateDrain_wrong_argument_count [OF parse len, of demo_cli demo_d demo_p "[]"] parse
    by (simp add: Sprintf_d_digit digit_char_def)
qed

subsection \<open>Adapter selection\<close>

text \<open>
  Claim C9, as amended. Once the argument count, the drain URL and the drain type have
  passed their checks, an adapter type other than \<open>service\<close> and \<open>application\<close> ends the
  invocation in \<open>Fatalf\<close> with the message of \<open>unsupported_adapter\<close>, before any
  collaborator is called; the adapter type is \<open>service\<close> when the flag is absent.
\<close>

theorem unsupported_adapter_type:
  assumes "flags_ParseArgs L args0 = Inr (found, [target, drainURL])"
    and "url_Parse L drainURL = Inr u0"
    and "opts = foldl set_flag opts0 found"
    and "DrainType opts = [] \<or> validDrainType (DrainType opts)"
  shows "(AdapterType opts \<noteq> ''service'' \<and> AdapterType opts \<noteq> ''application'' \<longrightarrow>
            CreateDrain L cli args0 d p tr = (tr, Inl (Fatalf unsupported_adapter))) \<and>
         (Flag_adapter_type \<notin> fst ` set found \<longrightarrow> AdapterType opts = ''service'')"
proof -
  have "AdapterType opts = ''service''" if "Flag_adapter_type \<notin> fst ` set found"
    using AdapterType_foldl_set_flag [OF that, of opts0] assms(3) by (simp add: opts0_def)
  moreover have "CreateDrain L cli args0 d p tr = (tr, Inl (Fatalf unsupported_adapter))"
    if "AdapterType opts \<noteq> ''service''" "AdapterType opts \<noteq> ''application''"
    using assms that by (auto simp: CreateDrain_def Let_def bnd_def ret_def abort_def)
  ultimately show ?thesis by blast
qed

theorem unsupported_adapter_type_witness:
  "CreateDrain demo_lib demo_cli [''--adapter-type'', ''foo'', ''app-name'', ''syslog://a.com?a=b'']
     demo_d demo_p [] = ([], Inl (Fatalf unsupported_adapter)) \<and>
   AdapterType (foldl set_flag opts0 []) = ''service''"
proof -
  let ?args = "[''--adapter-type'', ''foo'', ''app-name'', ''syslog://a.com?a=b'']"
  have parse: "flags_ParseArgs demo_lib ?args =
      Inr ([(Flag_adapter_type, ''foo'')], [''app-name'', ''syslog://a.com?a=b''])"
    by (simp add: demo_lib_def)
  have url: "url_Parse demo_lib ''syslog://a.com?a=b'' =
      Inr \<lparr>Scheme = ''syslog'', Opaque = [], User = None, Host = ''a.com'', Path = [],
           RawPath = [], ForceQuery = False, RawQuery = ''a=b'', Fragment = []\<rparr>"
    by (simp add: demo_lib_def demo_Parse_def)
  have dtype: "DrainType (foldl set_flag opts0 [(Flag_adapter_type, ''foo'')]) = [] \<or>
      validDrainType (DrainType (foldl set_flag opts0 [(Flag_adapter_type, ''foo'')]))"
    by (simp add: opts0_def)
  have parse0: "flags_ParseArgs demo_lib [''app-name'', ''syslog://a.com?a=b''] =
      Inr ([], [''app-name'', ''syslog://a.com?a=b''])"
    by (simp add: demo_lib_def)
  have dtype0: "DrainType (foldl set_flag opts0 []) = [] \<or>
      validDrainType (DrainType (foldl set_flag opts0 []))"
    by (simp add: opts0_def)
  show ?thesis
    using unsupported_adapter_type [OF parse url refl dtype, of demo_cli demo_d demo_p "[]"]
      unsupported_adapter_type [OF parse0 url refl dtype0, of demo_cli demo_d demo_p "[]"]
    by (simp add: opts0_def)
qed

text \<open>
  The claim as stated fails: with one positional argument the check of the argument count
  comes first, and the message is the one of that check.
\<close>

theorem unsupported_adapter_type_counterexample:
  "AdapterType (foldl set_flag opts0 [(Flag_adapter_type, ''foo'')]) = ''foo'' \<and>
   flags_ParseArgs demo_lib [''--adapter-type'', ''foo'', ''app-name''] =
     Inr ([(Flag_adapter_type, ''foo'')], [''app-name'']) \<and>
   CreateDrain demo_lib demo_cli [''--adapter-type'', ''foo'', ''app-name''] demo_d demo_p [] =
     ([], Inl (Fatalf ''Invalid arguments, expected 2, got 1.'')) \<and>
   ''Invalid arguments, expected 2, got 1.'' \<noteq> unsupported_adapter"
  by (simp add: CreateDrain_def demo_lib_def opts0_def abort_def Sprintf_d_digit digit_char_def
      unsupported_adapter_def)

lemmas run_defs = bnd_def ret_def abort_def call_def orFatal_def
lemmas cli_defs = cli_GetApp_def cli_GetService_def cli_GetCurrentOrg_def
  cli_GetCurrentSpace_def cli_ApiEndpoint_def cli_IsSSLDisabled_def cli_CliCommand_def
  cli_CliCommandWithoutTerminalOutput_def NewV4_def Printf_def

lemma length_Sprintf_x: "length (Sprintf_x bs) = 2 * length bs"
  by (induction bs) (simp_all add: Sprintf_x_def hex_byte_def)

lemma lowerhex_is_hex: "n < 16 \<Longrightarrow> lowerhex n \<in> set ''0123456789abcdef''"
  unfolding lowerhex_def by (rule nth_mem) simp

lemma hex_Sprintf_x: "list_all is_lowerhex (Sprintf_x bs)"
proof (induction bs)
  case Nil
  show ?case by (simp add: Sprintf_x_def)
next
  case (Cons b bs)
  have "unat b < 256" using unsigned_less [of b] by simp
  then have "unat b div 16 < 16" by simp
  then show ?case using Cons
    by (simp add: Sprintf_x_def hex_byte_def is_lowerhex_def lowerhex_is_hex del: set_simps)
qed

lemma uuid_pattern_parts:
  assumes "length a = 8" "length b = 4" "length c = 4" "length d = 4" "length e = 12"
    and "list_all is_lowerhex a" "list_all is_lowerhex b" "list_all is_lowerhex c"
    and "list_all is_lowerhex d" "list_all is_lowerhex e"
  shows "uuid_pattern (a @ ''-'' @ b @ ''-'' @ c @ ''-'' @ d @ ''-'' @ e)"
  using assms unfolding uuid_pattern_def by (simp add: nth_append)

lemma UUID_String_pattern: "uuid_pattern (UUID_String g)"
proof -
  have len: "length (Rep_UUID g) = 16" using Rep_UUID [of g] by simp
  show ?thesis
    unfolding UUID_String_def Let_def
    by (rule uuid_pattern_parts) (simp_all add: length_Sprintf_x hex_Sprintf_x len)
qed

text \<open>The name rule of \<open>serviceName\<close>.\<close>

lemma serviceName_given:
  "DrainName f \<noteq> [] \<Longrightarrow> serviceName L f tr = (tr, Inr (DrainName f))"
  by (simp add: serviceName_def ret_def)

lemma serviceName_generated:
  "DrainName f = [] \<Longrightarrow>
   serviceName L f tr =
     (tr @ [Call_NewV4],
      case uuid_NewV4 L tr of
        Inl err \<Rightarrow> Inl (log_Fatalf err)
      | Inr guid \<Rightarrow> Inr (''cf-drain-'' @ UUID_String guid))"
  by (simp add: serviceName_def run_defs cli_defs split: sum.splits)

lemma serviceName_result:
  assumes "serviceName L f tr = (tr1, Inr name)"
  shows "(DrainName f \<noteq> [] \<longrightarrow> name = DrainName f \<and> tr1 = tr) \<and>
         (DrainName f = [] \<longrightarrow>
            (\<exists>g. uuid_NewV4 L tr = Inr g \<and> name = ''cf-drain-'' @ UUID_String g) \<and>
            tr1 = tr @ [Call_NewV4] \<and> uuid_pattern (drop 9 name))"
proof (cases "DrainName f = []")
  case False
  then show ?thesis using assms by (simp add: serviceName_given)
next
  case True
  then show ?thesis using assms
    by (auto simp: serviceName_generated UUID_String_pattern split: sum.splits)
qed

lemma createAndBindService_run:
  "createAndBindService L cli u appName svcName tr =
     (let create = [''create-user-provided-service'', svcName, ''-l'', url_String L u];
          bind = [''bind-service'', appName, svcName]
      in case GetApp cli tr appName of
           Inl e \<Rightarrow> (tr @ [Call_GetApp appName], Inl (Fatalf e))
         | Inr guid \<Rightarrow>
            (case CliCommand cli (tr @ [Call_GetApp appName]) create of
               Inl e \<Rightarrow> (tr @ [Call_GetApp appName, Call_CliCommand create], Inl (Fatalf e))
             | Inr out1 \<Rightarrow>
                (case CliCommand cli (tr @ [Call_GetApp appName, Call_CliCommand create]) bind of
                   Inl e \<Rightarrow>
                     (tr @ [Call_GetApp appName, Call_CliCommand create, Call_CliCommand bind],
                      Inl (Fatalf e))
                 | Inr out2 \<Rightarrow>
                     (tr @ [Call_GetApp appName, Call_CliCommand create, Call_CliCommand bind],
                      Inr ()))))"
  by (simp add: createAndBindService_def run_defs cli_defs Let_def split: sum.splits)


lemma bnd_ret: "bnd (ret x) f = f x"
  by (rule ext) (simp add: run_defs)

lemma bnd_abort: "bnd (abort e) f = abort e"
  by (rule ext) (simp add: run_defs)

lemma serviceName_positional:
  "serviceName L (f\<lparr>AppOrServiceName := a, DrainURL := b\<rparr>) = serviceName L f"
proof -
  have "DrainName (f\<lparr>AppOrServiceName := a, DrainURL := b\<rparr>) = DrainName f" by simp
  then show ?thesis unfolding serviceName_def by (simp only:)
qed

text \<open>What \<open>CreateDrain\<close> hands to the adapter once the checks have passed.\<close>

lemma CreateDrain_dispatch:
  assumes "flags_ParseArgs L args0 = Inr (found, [target, drainURL])"
    and "url_Parse L drainURL = Inr u0"
    and "opts = foldl set_flag opts0 found"
    and "DrainType opts = [] \<or> validDrainType (DrainType opts)"
    and "u = (if DrainType opts = [] then u0 else setDrainType u0 (DrainType opts))"
  shows "CreateDrain L cli args0 d p =
           (if AdapterType opts = ''service'' then
              bnd (serviceName L opts) (\<lambda>name. createAndBindService L cli u target name)
            else if AdapterType opts = ''application'' then
              bnd (serviceName L opts)
                (\<lambda>name. pushSyslogForwarder L cli u target name (Username opts) [] d p)
            else abort (Fatalf unsupported_adapter))"
proof -
  have pw: "Password opts = []"
    using assms(3) by (simp add: Password_foldl_set_flag opts0_def)
  have opts: "foldl set_flag opts0 found = opts"
    using assms(3) by simp
  show ?thesis
  proof (cases "DrainType opts = []")
    case True
    then show ?thesis
      using assms(1,2,5) pw
      by (simp add: CreateDrain_def opts Let_def bnd_ret serviceName_positional cong: if_cong)
  next
    case False
    then show ?thesis
      using assms(1,2,4,5) pw
      by (simp add: CreateDrain_def opts Let_def bnd_ret serviceName_positional cong: if_cong)
  qed
qed

subsection \<open>The service adapter\<close>

text \<open>
  Claim C1, as amended. Take an invocation with two positional arguments, a drain URL
  that parses, adapter type \<open>service\<close> and a drain type that is empty or valid, whose
  service name is available: the \<open>--drain-name\<close> when that is not empty, and otherwise
  \<open>cf-drain-\<close> followed by a freshly generated identifier in the pattern of the tests.
  Then the run looks the target up as an application and ends with the error of the
  lookup when that fails; otherwise it runs \<open>create-user-provided-service name -l url\<close>,
  with \<open>url\<close> the (annotated) URL as \<open>URL.String\<close> prints it, and, when that succeeds,
  \<open>bind-service target name\<close>; a failing command ends the run with its error. Nothing
  else is called.
\<close>

theorem service_adapter_run:
  assumes "flags_ParseArgs L args0 = Inr (found, [target, drainURL])"
    and "url_Parse L drainURL = Inr u0"
    and "opts = foldl set_flag opts0 found"
    and "AdapterType opts = ''service''"
    and "DrainType opts = [] \<or> validDrainType (DrainType opts)"
    and "u = (if DrainType opts = [] then u0 else setDrainType u0 (DrainType opts))"
    and "serviceName L opts tr = (tr1, Inr name)"
    and "create = [''create-user-provided-service'', name, ''-l'', url_String L u]"
    and "bind = [''bind-service'', target, name]"
  shows "(DrainName opts \<noteq> [] \<longrightarrow> name = DrainName opts \<and> tr1 = tr) \<and>
         (DrainName opts = [] \<longrightarrow>
            (\<exists>g. uuid_NewV4 L tr = Inr g \<and> name = ''cf-drain-'' @ UUID_String g) \<and>
            tr1 = tr @ [Call_NewV4] \<and> uuid_pattern (drop 9 name)) \<and>
         CreateDrain L cli args0 d p tr =
           (case GetApp cli tr1 target of
              Inl e \<Rightarrow> (tr1 @ [Call_GetApp target], Inl (Fatalf e))
            | Inr guid \<Rightarrow>
               (case CliCommand cli (tr1 @ [Call_GetApp target]) create of
                  Inl e \<Rightarrow> (tr1 @ [Call_GetApp target, Call_CliCommand create], Inl (Fatalf e))
                | Inr out1 \<Rightarrow>
                   (case CliCommand cli (tr1 @ [Call_GetApp target, Call_CliCommand create]) bind of
                      Inl e \<Rightarrow>
                        (tr1 @ [Call_GetApp target, Call_CliCommand create, Call_CliCommand bind],
                         Inl (Fatalf e))
                    | Inr out2 \<Rightarrow>
                        (tr1 @ [Call_GetApp target, Call_CliCommand create, Call_CliCommand bind],
                         Inr ()))))"
proof -
  have "CreateDrain L cli args0 d p tr = createAndBindService L cli u target name tr1"
    using CreateDrain_dispatch [OF assms(1,2,3,5,6), of cli d p] assms(4,7)
    by (simp add: bnd_def)
  then have run: "CreateDrain L cli args0 d p tr =
           (case GetApp cli tr1 target of
              Inl e \<Rightarrow> (tr1 @ [Call_GetApp target], Inl (Fatalf e))
            | Inr guid \<Rightarrow>
               (case CliCommand cli (tr1 @ [Call_GetApp target]) create of
                  Inl e \<Rightarrow> (tr1 @ [Call_GetApp target, Call_CliCommand create], Inl (Fatalf e))
                | Inr out1 \<Rightarrow>
                   (case CliCommand cli (tr1 @ [Call_GetApp target, Call_CliCommand create]) bind of
                      Inl e \<Rightarrow>
                        (tr1 @ [Call_GetApp target, Call_CliCommand create, Call_CliCommand bind],
                         Inl (Fatalf e))
                    | Inr out2 \<Rightarrow>
                        (tr1 @ [Call_GetApp target, Call_CliCommand create, Call_CliCommand bind],
                         Inr ()))))"
    unfolding createAndBindService_run Let_def assms(8,9) by (simp only:)
  from serviceName_result [OF assms(7)] run show ?thesis by (intro conjI) blast+
qed

lemma UUID_String_demo_0:
  "UUID_String (demo_uuid 0) = ''00112233-4455-4677-8899-aabbccddeeff''"
  by (simp add: UUID_String_def Rep_demo_uuid Sprintf_x_def hex_byte_def lowerhex_def)

theorem service_adapter_run_witness:
  "CreateDrain demo_lib demo_cli [''app-name'', ''syslog://a.com?a=b''] demo_d demo_p [] =
     ([Call_NewV4, Call_GetApp ''app-name'',
       Call_CliCommand [''create-user-provided-service'',
                        ''cf-drain-00112233-4455-4677-8899-aabbccddeeff'', ''-l'',
                        ''syslog://a.com?a=b''],
       Call_CliCommand [''bind-service'', ''app-name'',
                        ''cf-drain-00112233-4455-4677-8899-aabbccddeeff'']],
      Inr ()) \<and>
   uuid_pattern ''00112233-4455-4677-8899-aabbccddeeff''"
proof -
  let ?u = "\<lparr>Scheme = ''syslog'', Opaque = [], User = None, Host = ''a.com'', Path = [],
           RawPath = [], ForceQuery = False, RawQuery = ''a=b'', Fragment = []\<rparr>"
  let ?name = "''cf-drain-00112233-4455-4677-8899-aabbccddeeff''"
  have parse: "flags_ParseArgs demo_lib [''app-name'', ''syslog://a.com?a=b''] =
      Inr ([], [''app-name'', ''syslog://a.com?a=b''])"
    by (simp add: demo_lib_def)
  have url: "url_Parse demo_lib ''syslog://a.com?a=b'' = Inr ?u"
    by (simp add: demo_lib_def demo_Parse_def)
  have adapter: "AdapterType (foldl set_flag opts0 []) = ''service''"
    by (simp add: opts0_def)
  have dtype: "DrainType (foldl set_flag opts0 []) = [] \<or>
      validDrainType (DrainType (foldl set_flag opts0 []))"
    by (simp add: opts0_def)
  have u: "?u = (if DrainType (foldl set_flag opts0 []) = [] then ?u
                 else setDrainType ?u (DrainType (foldl set_flag opts0 [])))"
    by (simp add: opts0_def)
  have name: "serviceName demo_lib (foldl set_flag opts0 []) [] = ([Call_NewV4], Inr ?name)"
    by (simp add: serviceName_generated opts0_def demo_lib_def UUID_String_demo_0)
  show ?thesis
    using service_adapter_run [OF parse url refl adapter dtype u name refl refl,
        of demo_cli demo_d demo_p]
    by (simp add: opts0_def demo_cli_def demo_lib_def demo_String_def UUID_String_pattern)
qed

text \<open>
  The claim as stated fails: with two positional arguments, a URL that parses and the
  service adapter, an invalid \<open>--type\<close> ends the invocation before the target is looked
  up.
\<close>

theorem service_adapter_run_counterexample:
  "flags_ParseArgs demo_lib [''--type'', ''garbage'', ''app-name'', ''syslog://a.com''] =
     Inr ([(Flag_type, ''garbage'')], [''app-name'', ''syslog://a.com'']) \<and>
   url_Parse demo_lib ''syslog://a.com'' =
     Inr \<lparr>Scheme = ''syslog'', Opaque = [], User = None, Host = ''a.com'', Path = [],
          RawPath = [], ForceQuery = False, RawQuery = [], Fragment = []\<rparr> \<and>
   AdapterType (foldl set_flag opts0 [(Flag_type, ''garbage'')]) = ''service'' \<and>
   CreateDrain demo_lib demo_cli [''--type'', ''garbage'', ''app-name'', ''syslog://a.com'']
     demo_d demo_p [] = ([], Inl (Fatalf ''Invalid type: garbage''))"
  by (simp add: CreateDrain_def demo_lib_def demo_Parse_def opts0_def validDrainType_def
      bnd_abort abort_def)

subsection \<open>The application adapter in phases\<close>

lemma bnd_assoc: "bnd (bnd m f) g = bnd m (\<lambda>x. bnd (f x) g)"
  by (rule ext) (simp add: bnd_def split: prod.splits sum.splits)

lemma bnd_case_prod: "bnd (case x of (a, b) \<Rightarrow> f a b) g = (case x of (a, b) \<Rightarrow> bnd (f a b) g)"
  by (simp split: prod.splits)

lemma pushSyslogForwarder_phases:
  "pushSyslogForwarder L cli u target name username0 password0 d p =
     bnd (sourceID cli target) (\<lambda>r.
     case r of
       Inl err \<Rightarrow>
         abort (Fatalf (''unknown application or service '' @
                        Sprintf_q (strconv_Quote L) target))
     | Inr srcID \<Rightarrow>
         bnd (sessionInfo cli) (\<lambda>(org, space, apiEndpoint).
         bnd (credentials L cli p srcID username0 password0) (\<lambda>(username, password).
         deployForwarder L cli d u target name srcID org space apiEndpoint
           username password)))"
  unfolding pushSyslogForwarder_def sessionInfo_def credentials_def deployForwarder_def
    push_command_def
  by (simp add: bnd_assoc bnd_ret bnd_case_prod Let_def cong: sum.case_cong)

subsection \<open>Runs that stop at an error\<close>

lemma stops_ret: "stops S (ret x)"
  by (simp add: stops_def ret_def)

lemma stops_abort: "stops S (abort e)"
  by (simp add: stops_def abort_def)

lemma stops_call:
  assumes "\<And>h. S h ev = None"
  shows "stops S (call ev a)"
  using assms by (auto simp: stops_def call_def Cons_eq_append_conv)

lemma stops_orFatal_call:
  assumes "\<And>h x. S h ev = Some x \<Longrightarrow> \<exists>e. a h = Inl e \<and> x = Fatalf e"
  shows "stops S (orFatal (call ev a))"
  unfolding stops_def
proof (intro allI)
  fix tr
  have "fst (orFatal (call ev a) tr) = tr @ [ev]"
    by (simp add: run_defs split: sum.splits)
  moreover have "post = [] \<and> snd (orFatal (call ev a) tr) = Inl x"
    if "[ev] = pre @ ev' # post" "S (tr @ pre) ev' = Some x" for pre ev' post x
  proof -
    from that(1) have "pre = []" "ev' = ev" "post = []"
      by (auto simp: Cons_eq_append_conv)
    with that(2) assms [of tr x] show ?thesis
      by (auto simp: run_defs)
  qed
  ultimately show "\<exists>new. fst (orFatal (call ev a) tr) = tr @ new \<and>
      (\<forall>pre ev' post x. new = pre @ ev' # post \<longrightarrow> S (tr @ pre) ev' = Some x \<longrightarrow>
         post = [] \<and> snd (orFatal (call ev a) tr) = Inl x)"
    by blast
qed

lemma stops_bnd:
  assumes m: "stops S m" and f: "\<And>x. stops S (f x)"
  shows "stops S (bnd m f)"
  unfolding stops_def
proof (intro allI)
  fix tr
  from m obtain n1 where n1: "fst (m tr) = tr @ n1"
    and p1: "\<And>pre ev post x. n1 = pre @ ev # post \<Longrightarrow> S (tr @ pre) ev = Some x \<Longrightarrow>
               post = [] \<and> snd (m tr) = Inl x"
    unfolding stops_def by blast
  show "\<exists>new. fst (bnd m f tr) = tr @ new \<and>
      (\<forall>pre ev post x. new = pre @ ev # post \<longrightarrow> S (tr @ pre) ev = Some x \<longrightarrow>
         post = [] \<and> snd (bnd m f tr) = Inl x)"
  proof (cases "snd (m tr)")
    case (Inl e)
    then have "fst (bnd m f tr) = fst (m tr)" "snd (bnd m f tr) = Inl e"
      by (cases "m tr"; simp add: bnd_def)+
    then show ?thesis using n1 p1 Inl by auto
  next
    case (Inr y)
    then have run: "bnd m f tr = f y (tr @ n1)"
      using n1 by (cases "m tr") (simp add: bnd_def)
    from f [of y] obtain n2 where n2: "fst (f y (tr @ n1)) = (tr @ n1) @ n2"
      and p2: "\<And>pre ev post x. n2 = pre @ ev # post \<Longrightarrow> S ((tr @ n1) @ pre) ev = Some x \<Longrightarrow>
                 post = [] \<and> snd (f y (tr @ n1)) = Inl x"
      unfolding stops_def by blast
    have "post = [] \<and> snd (bnd m f tr) = Inl x"
      if eq: "n1 @ n2 = pre @ ev # post" and s: "S (tr @ pre) ev = Some x" for pre ev post x
    proof -
      from eq obtain us where
        "(n1 = pre @ us \<and> us @ n2 = ev # post) \<or> (n1 @ us = pre \<and> n2 = us @ ev # post)"
        by (auto simp: append_eq_append_conv2)
      then consider us' where "n1 = pre @ ev # us'"
        | vs where "n1 @ vs = pre" "n2 = vs @ ev # post"
        by (cases us) auto
      then show ?thesis
      proof cases
        case 1
        from p1 [OF this s] Inr show ?thesis by simp
      next
        case 2
        from p2 [OF 2(2)] s 2(1) run show ?thesis by auto
      qed
    qed
    then show ?thesis using n2 run by auto
  qed
qed

lemma stops_if:
  "(b \<Longrightarrow> stops S m) \<Longrightarrow> (\<not> b \<Longrightarrow> stops S n) \<Longrightarrow> stops S (if b then m else n)"
  by simp

lemma stops_case_sum:
  "(\<And>a. stops S (f a)) \<Longrightarrow> (\<And>b. stops S (g b)) \<Longrightarrow>
   stops S (case s of Inl a \<Rightarrow> f a | Inr b \<Rightarrow> g b)"
  by (cases s) simp_all

lemma stops_case_prod:
  "(\<And>a b. stops S (f a b)) \<Longrightarrow> stops S (case x of (a, b) \<Rightarrow> f a b)"
  by (cases x) simp

lemma stops_setEnvs:
  assumes "\<And>h c x. S h (Call_CliCommandWithoutTerminalOutput c) = Some x \<Longrightarrow>
             \<exists>e. CliCommandWithoutTerminalOutput cli h c = Inl e \<and> x = Fatalf e"
  shows "stops S (setEnvs cli cmds)"
proof (induction cmds)
  case Nil
  show ?case by (simp add: stops_ret)
next
  case (Cons c cmds)
  show ?case
    unfolding setEnvs.simps cli_CliCommandWithoutTerminalOutput_def
    by (intro stops_bnd stops_orFatal_call assms Cons)
qed

lemmas stops_rules = stops_bnd stops_orFatal_call stops_call stops_ret stops_abort
  stops_if stops_case_sum stops_case_prod stops_setEnvs

lemma stops_createAndBindService:
  "stops (\<lambda>h ev. map_option Fatalf (executor_error cli h ev))
     (createAndBindService L cli u appName svcName)"
  unfolding createAndBindService_def cli_defs
  by (intro stops_rules) (auto simp: error_of_def split: sum.splits)

lemma stops_pushSyslogForwarder:
  "stops (app_exit cli) (pushSyslogForwarder L cli u target name username0 password0 d p)"
  unfolding pushSyslogForwarder_def sourceID_def createUser_def cli_defs Let_def
  by (intro stops_rules) (auto simp: app_exit_def error_of_def split: sum.splits)

subsection \<open>Source identity\<close>

lemma sourceID_run:
  "sourceID cli n tr =
     (case GetApp cli tr n of
        Inr g \<Rightarrow> (tr @ [Call_GetApp n], Inr (Inr g))
      | Inl e \<Rightarrow>
         (case GetService cli (tr @ [Call_GetApp n]) n of
            Inr g \<Rightarrow> (tr @ [Call_GetApp n, Call_GetService n], Inr (Inr g))
          | Inl e' \<Rightarrow> (tr @ [Call_GetApp n, Call_GetService n], Inr (Inl e'))))"
  by (simp add: sourceID_def run_defs cli_defs split: sum.splits)








subsection \<open>Errors of the command executor\<close>

text \<open>
  Claim C5, as amended. In a run of the service adapter, a call of the \<open>CliConnection\<close>
  that answers with an error (the lookup, the creation, the binding) is the last event of
  the trace, and the run ends in \<open>Fatalf\<close> with the message of that error. The same holds
  for the application adapter and every call of the \<open>CliConnection\<close> but its two lookups
  (the session data, the user commands, the push, each \<open>set-env\<close>, the start). Nothing is
  called after the failing step, so what the earlier steps created stays.
\<close>

theorem executor_error_aborts:
  "(createAndBindService L cli u target name tr = (tr', r) \<and> tr' = tr @ pre @ ev # post \<and>
    executor_error cli (tr @ pre) ev = Some e \<longrightarrow>
      post = [] \<and> r = Inl (Fatalf e)) \<and>
   (pushSyslogForwarder L cli u target name usr pwd d p tr = (tr', r) \<and>
    tr' = tr @ pre @ ev # post \<and> \<not> is_lookup ev \<and>
    executor_error cli (tr @ pre) ev = Some e \<longrightarrow>
      post = [] \<and> r = Inl (Fatalf e))"
proof (rule conjI; rule impI; elim conjE)
  assume run: "createAndBindService L cli u target name tr = (tr', r)"
    and tr': "tr' = tr @ pre @ ev # post"
    and err: "executor_error cli (tr @ pre) ev = Some e"
  from stops_createAndBindService [of cli L u target name] run tr' err
  show "post = [] \<and> r = Inl (Fatalf e)"
    unfolding stops_def by (metis (no_types, lifting) fst_conv same_append_eq snd_conv option.simps(9))
next
  assume run: "pushSyslogForwarder L cli u target name usr pwd d p tr = (tr', r)"
    and tr': "tr' = tr @ pre @ ev # post"
    and ev: "\<not> is_lookup ev"
    and err: "executor_error cli (tr @ pre) ev = Some e"
  from ev err have "app_exit cli (tr @ pre) ev = Some (Fatalf e)"
    by (simp add: app_exit_def)
  with stops_pushSyslogForwarder [of cli L u target name usr pwd d p] run tr'
  show "post = [] \<and> r = Inl (Fatalf e)"
    unfolding stops_def by (metis (no_types, lifting) fst_conv same_append_eq snd_conv)
qed

theorem executor_error_aborts_witness:
  "createAndBindService demo_lib bind_fails_cli demo_url ''app-name'' ''my-drain'' [] =
     ([Call_GetApp ''app-name'',
       Call_CliCommand [''create-user-provided-service'', ''my-drain'', ''-l'',
                        ''syslog://a.com?a=b''],
       Call_CliCommand [''bind-service'', ''app-name'', ''my-drain'']],
      Inl (Fatalf ''failed to bind'')) \<and>
   pushSyslogForwarder demo_lib push_fails_cli demo_url ''app-name'' ''my-drain'' ''my-user'' []
       demo_d demo_p [] =
     ([Call_GetApp ''app-name'', Call_GetCurrentOrg, Call_GetCurrentSpace, Call_ApiEndpoint,
       Log_Printf ''Enter a password for my-user: '', Call_passwordReader 0,
       Call_Download ''syslog_forwarder'',
       Call_CliCommand (push_command ''my-drain'' ''/downloaded/temp/dir'')],
      Inl (Fatalf ''push error''))"
proof -
  let ?create = "Call_CliCommand [''create-user-provided-service'', ''my-drain'', ''-l'',
                        ''syslog://a.com?a=b'']"
  let ?bind = "Call_CliCommand [''bind-service'', ''app-name'', ''my-drain'']"
  let ?svc = "createAndBindService demo_lib bind_fails_cli demo_url ''app-name'' ''my-drain'' []"
  let ?app = "pushSyslogForwarder demo_lib push_fails_cli demo_url ''app-name'' ''my-drain''
       ''my-user'' [] demo_d demo_p []"
  let ?pre = "[Call_GetApp ''app-name'', Call_GetCurrentOrg, Call_GetCurrentSpace,
       Call_ApiEndpoint, Log_Printf ''Enter a password for my-user: '', Call_passwordReader 0,
       Call_Download ''syslog_forwarder'']"
  let ?push = "Call_CliCommand (push_command ''my-drain'' ''/downloaded/temp/dir'')"
  have svc: "fst ?svc = [] @ [Call_GetApp ''app-name'', ?create] @ ?bind # []"
    by (simp add: createAndBindService_run bind_fails_cli_def demo_cli_def demo_lib_def
        demo_url_def demo_String_def)
  have svc_err: "executor_error bind_fails_cli ([] @ [Call_GetApp ''app-name'', ?create])
      ?bind = Some ''failed to bind''"
    by (simp add: bind_fails_cli_def demo_cli_def error_of_def)
  have app: "fst ?app = [] @ ?pre @ ?push # []"
    by (simp add: pushSyslogForwarder_phases sourceID_run sessionInfo_def credentials_def
        deployForwarder_def run_defs cli_defs push_fails_cli_def demo_cli_def demo_lib_def
        demo_d_def demo_p_def demo_Dir_def push_command_def)
  have app_err: "executor_error push_fails_cli ([] @ ?pre) ?push = Some ''push error''"
    by (simp add: push_fails_cli_def demo_cli_def error_of_def push_command_def)
  have "[] = ([] :: event list) \<and> snd ?svc = Inl (Fatalf ''failed to bind'')"
  proof (rule executor_error_aborts [where L = demo_lib and cli = bind_fails_cli and
        u = demo_url and target = "''app-name''" and name = "''my-drain''" and tr = "[]" and
        tr' = "fst ?svc" and r = "snd ?svc" and pre = "[Call_GetApp ''app-name'', ?create]" and
        ev = ?bind and post = "[]" and e = "''failed to bind''", THEN conjunct1, rule_format])
    show "?svc = (fst ?svc, snd ?svc) \<and>
        fst ?svc = [] @ [Call_GetApp ''app-name'', ?create] @ ?bind # [] \<and>
        executor_error bind_fails_cli ([] @ [Call_GetApp ''app-name'', ?create]) ?bind =
          Some ''failed to bind''"
      by (intro conjI) (simp, rule svc, rule svc_err)
  qed
  moreover have "[] = ([] :: event list) \<and> snd ?app = Inl (Fatalf ''push error'')"
  proof (rule executor_error_aborts [where L = demo_lib and cli = push_fails_cli and
        u = demo_url and target = "''app-name''" and name = "''my-drain''" and
        usr = "''my-user''" and pwd = "[]" and d = demo_d and p = demo_p and tr = "[]" and
        tr' = "fst ?app" and r = "snd ?app" and pre = ?pre and ev = ?push and post = "[]" and
        e = "''push error''", THEN conjunct2, rule_format])
    show "?app = (fst ?app, snd ?app) \<and> fst ?app = [] @ ?pre @ ?push # [] \<and>
        \<not> is_lookup ?push \<and>
        executor_error push_fails_cli ([] @ ?pre) ?push = Some ''push error''"
      by (intro conjI) (simp, rule app, simp, rule app_err)
  qed
  ultimately show ?thesis
    using svc app by (simp add: prod_eq_iff)
qed

text \<open>
  The claim as stated fails at the lookup of the application adapter: the failed
  application lookup is followed by another call, and the message of the exit is the one
  of neither lookup.
\<close>

theorem executor_error_aborts_counterexample:
  "pushSyslogForwarder demo_lib unknown_cli demo_url ''app-name'' ''my-drain'' ''my-user'' []
       demo_d demo_p [] =
     ([Call_GetApp ''app-name'', Call_GetService ''app-name''],
      Inl (Fatalf (''unknown application or service '' @ [CHR 0x22] @ ''app-name'' @
                   [CHR 0x22]))) \<and>
   executor_error unknown_cli [] (Call_GetApp ''app-name'') = Some ''unknown app'' \<and>
   executor_error unknown_cli [Call_GetApp ''app-name''] (Call_GetService ''app-name'') =
     Some ''unknown service'' \<and>
   ''unknown application or service '' @ [CHR 0x22] @ ''app-name'' @ [CHR 0x22] \<noteq>
     ''unknown app'' \<and>
   ''unknown application or service '' @ [CHR 0x22] @ ''app-name'' @ [CHR 0x22] \<noteq>
     ''unknown service''"
  by (simp add: pushSyslogForwarder_phases sourceID_run unknown_cli_def no_app_cli_def
      demo_cli_def bnd_def abort_def Sprintf_q_def quote_ascii_def error_of_def)

subsection \<open>Runs and their events\<close>

lemma emits_ret: "R x \<Longrightarrow> emits P R (ret x)"
  by (simp add: emits_def ret_def)

lemma emits_abort: "emits P R (abort e)"
  by (simp add: emits_def abort_def)

lemma emits_call: "P ev \<Longrightarrow> emits P (\<lambda>x. \<exists>h. x = a h) (call ev a)"
  by (auto simp: emits_def call_def)

lemma emits_orFatal_call: "P ev \<Longrightarrow> emits P (\<lambda>x. \<exists>h. a h = Inr x) (orFatal (call ev a))"
  by (auto simp: emits_def run_defs split: sum.splits)

lemma emits_weaken:
  assumes "emits P R m" and "\<And>ev. P ev \<Longrightarrow> P' ev" and "\<And>x. R x \<Longrightarrow> R' x"
  shows "emits P' R' m"
  unfolding emits_def
proof
  fix tr
  from assms(1) obtain new where "fst (m tr) = tr @ new" "list_all P new"
    "\<forall>x. snd (m tr) = Inr x \<longrightarrow> R x"
    unfolding emits_def by blast
  with assms(2,3) show "\<exists>new. fst (m tr) = tr @ new \<and> list_all P' new \<and>
      (\<forall>x. snd (m tr) = Inr x \<longrightarrow> R' x)"
    by (auto simp: list_all_iff)
qed

lemma bnd_cases:
  assumes "bnd m f tr = (tr', r)"
  obtains (stop) e where "m tr = (tr', Inl e)" "r = Inl e"
    | (go) tr1 x where "m tr = (tr1, Inr x)" "f x tr1 = (tr', r)"
  using assms by (auto simp: bnd_def split: prod.splits sum.splits)

lemma emits_bnd:
  assumes m: "emits P R m" and f: "\<And>x. R x \<Longrightarrow> emits P R' (f x)"
  shows "emits P R' (bnd m f)"
  unfolding emits_def
proof
  fix tr
  from m obtain n1 where n1: "fst (m tr) = tr @ n1" "list_all P n1"
    and r1: "\<And>x. snd (m tr) = Inr x \<Longrightarrow> R x"
    unfolding emits_def by blast
  obtain tr' r where run: "bnd m f tr = (tr', r)" by (cases "bnd m f tr")
  from run show "\<exists>new. fst (bnd m f tr) = tr @ new \<and> list_all P new \<and>
      (\<forall>x. snd (bnd m f tr) = Inr x \<longrightarrow> R' x)"
  proof (cases rule: bnd_cases)
    case (stop e)
    with n1 run show ?thesis by auto
  next
    case (go tr1 x)
    with n1 have tr1: "tr1 = tr @ n1" by simp
    from go r1 have "R x" by simp
    from f [OF this] obtain n2 where "fst (f x tr1) = tr1 @ n2" "list_all P n2"
      "\<forall>y. snd (f x tr1) = Inr y \<longrightarrow> R' y"
      unfolding emits_def by blast
    with go(2) tr1 n1 run show ?thesis by auto
  qed
qed

lemma emits_if:
  "(b \<Longrightarrow> emits P R m) \<Longrightarrow> (\<not> b \<Longrightarrow> emits P R n) \<Longrightarrow> emits P R (if b then m else n)"
  by simp

lemma emits_case_sum:
  "(\<And>a. s = Inl a \<Longrightarrow> emits P R (f a)) \<Longrightarrow> (\<And>b. s = Inr b \<Longrightarrow> emits P R (g b)) \<Longrightarrow>
   emits P R (case s of Inl a \<Rightarrow> f a | Inr b \<Rightarrow> g b)"
  by (cases s) simp_all

lemma emits_case_prod:
  "(\<And>a b. emits P R (f a b)) \<Longrightarrow> emits P R (case x of (a, b) \<Rightarrow> f a b)"
  by (cases x) simp

text \<open>The rules for runs whose value is of no interest.\<close>

lemma emits_any: "emits P R m \<Longrightarrow> emits P (\<lambda>x. True) m"
  by (erule emits_weaken) simp_all

lemma any_ret: "emits P (\<lambda>x. True) (ret x)"
  by (simp add: emits_ret)

lemma any_call: "P ev \<Longrightarrow> emits P (\<lambda>x. True) (call ev a)"
  by (rule emits_any [OF emits_call])

lemma any_orFatal_call: "P ev \<Longrightarrow> emits P (\<lambda>x. True) (orFatal (call ev a))"
  by (rule emits_any [OF emits_orFatal_call])

lemma any_bnd:
  "emits P (\<lambda>x. True) m \<Longrightarrow> (\<And>x. emits P (\<lambda>x. True) (f x)) \<Longrightarrow>
   emits P (\<lambda>x. True) (bnd m f)"
  by (rule emits_bnd)

lemma any_setEnvs:
  assumes "list_all (\<lambda>c. P (Call_CliCommandWithoutTerminalOutput c)) cmds"
  shows "emits P (\<lambda>x. True) (setEnvs cli cmds)"
  using assms
proof (induction cmds)
  case Nil
  show ?case by (simp add: any_ret)
next
  case (Cons c cmds)
  then show ?case
    unfolding setEnvs.simps cli_CliCommandWithoutTerminalOutput_def
    by (intro any_bnd any_orFatal_call) simp_all
qed

lemmas any_rules = any_bnd any_orFatal_call any_call any_ret emits_abort emits_if
  emits_case_sum emits_case_prod any_setEnvs

lemma any_createUser: "emits prepare_event (\<lambda>x. True) (createUser L cli username)"
  unfolding createUser_def cli_defs Let_def
  by (intro any_rules) simp_all

lemma any_credentials:
  "emits prepare_event (\<lambda>x. True) (credentials L cli p srcID usr pwd)"
  unfolding credentials_def cli_defs
  by (intro any_rules any_createUser) simp_all

lemma emits_sourceID:
  "emits prepare_event
     (\<lambda>s. \<forall>g. s = Inr g \<longrightarrow> (\<exists>h. GetApp cli h n = Inr g) \<or> (\<exists>h. GetService cli h n = Inr g))
     (sourceID cli n)"
  unfolding emits_def by (auto simp: sourceID_run split: sum.splits)

lemma emits_sessionInfo:
  "emits prepare_event
     (\<lambda>(org, space, apiEndpoint).
        (\<exists>h. GetCurrentOrg cli h = Inr org) \<and> (\<exists>h. GetCurrentSpace cli h = Inr space) \<and>
        (\<exists>h. ApiEndpoint cli h = Inr apiEndpoint))
     (sessionInfo cli)"
  unfolding sessionInfo_def cli_defs
  apply (rule emits_bnd [OF emits_orFatal_call]; simp?)
  apply (rule emits_bnd [OF emits_orFatal_call]; simp?)
  apply (rule emits_bnd [OF emits_orFatal_call]; simp?)
  apply (rule emits_ret)
  apply auto
  done

lemma emits_prepare:
  "emits prepare_event (prepared cli target) (prepare L cli p target usr pwd)"
  unfolding prepare_def
proof (rule emits_bnd [OF emits_sourceID], rule emits_case_sum)
  fix r e
  show "emits prepare_event (prepared cli target)
      (abort (Fatalf (''unknown application or service '' @
                      Sprintf_q (strconv_Quote L) target)))"
    by (rule emits_abort)
next
  fix r srcID
  assume "\<forall>g. r = Inr g \<longrightarrow>
      (\<exists>h. GetApp cli h target = Inr g) \<or> (\<exists>h. GetService cli h target = Inr g)"
    and "r = Inr srcID"
  then have src: "(\<exists>h. GetApp cli h target = Inr srcID) \<or>
      (\<exists>h. GetService cli h target = Inr srcID)"
    by simp
  show "emits prepare_event (prepared cli target)
      (bnd (sessionInfo cli) (\<lambda>(org, space, apiEndpoint).
       bnd (credentials L cli p srcID usr pwd) (\<lambda>(username, password).
       ret (srcID, org, space, apiEndpoint, username, password))))"
  proof (rule emits_bnd [OF emits_sessionInfo], clarify)
    fix org space apiEndpoint h1 h2 h3
    assume "GetCurrentOrg cli h1 = Inr org" "GetCurrentSpace cli h2 = Inr space"
      "ApiEndpoint cli h3 = Inr apiEndpoint"
    with src have "prepared cli target (srcID, org, space, apiEndpoint, username, password)"
      for username password
      unfolding prepared_def by auto
    then show "emits prepare_event (prepared cli target)
        (bnd (credentials L cli p srcID usr pwd) (\<lambda>(username, password).
         ret (srcID, org, space, apiEndpoint, username, password)))"
      by (intro emits_bnd [OF any_credentials] emits_case_prod emits_ret)
  qed
qed

lemma pushSyslogForwarder_prepare:
  "pushSyslogForwarder L cli u target name usr pwd d p =
     bnd (prepare L cli p target usr pwd)
       (\<lambda>(srcID, org, space, apiEndpoint, username, password).
          deployForwarder L cli d u target name srcID org space apiEndpoint username password)"
  unfolding pushSyslogForwarder_phases prepare_def
  by (simp add: bnd_assoc bnd_ret bnd_abort bnd_case_prod sum.case_distrib [of "\<lambda>m. bnd m f" for f]
      cong: sum.case_cong)

text \<open>The events of a run before the download, and the run of the deployment.\<close>

lemma pushSyslogForwarder_cases:
  assumes "pushSyslogForwarder L cli u target name usr pwd d p tr = (tr', r)"
  obtains (aborted) new e where "tr' = tr @ new" "list_all prepare_event new" "r = Inl e"
  | (deployed) new srcID org space apiEndpoint username password
    where "list_all prepare_event new"
      "prepared cli target (srcID, org, space, apiEndpoint, username, password)"
      "deployForwarder L cli d u target name srcID org space apiEndpoint username password
         (tr @ new) = (tr', r)"
proof -
  from emits_prepare [of cli target L p usr pwd]
  obtain new where new: "fst (prepare L cli p target usr pwd tr) = tr @ new"
      "list_all prepare_event new"
    and val: "\<And>x. snd (prepare L cli p target usr pwd tr) = Inr x \<Longrightarrow> prepared cli target x"
    unfolding emits_def by blast
  from assms [unfolded pushSyslogForwarder_prepare] show ?thesis
  proof (cases rule: bnd_cases)
    case (stop e)
    with new have "tr' = tr @ new" by simp
    then show ?thesis using new(2) stop(2) by (rule aborted)
  next
    case (go tr1 x)
    obtain srcID org space apiEndpoint username password
      where x: "x = (srcID, org, space, apiEndpoint, username, password)"
      by (cases x)
    from go(1) new have tr1: "tr1 = tr @ new" by simp
    from go(1) val have "prepared cli target x" by simp
    with go(2) new(2) show ?thesis
      unfolding x tr1 by (intro deployed [of new srcID org space apiEndpoint username password]) simp_all
  qed
qed


subsection \<open>The deployment\<close>

lemma quiet_commands_append [simp]:
  "quiet_commands (a @ b) = quiet_commands a @ quiet_commands b"
  by (simp add: quiet_commands_def map_filter_def)

lemma quiet_commands_Nil [simp]: "quiet_commands [] = []"
  by (simp add: quiet_commands_def map_filter_def)

lemma quiet_commands_Cons [simp]:
  "quiet_commands (ev # tr) =
     (case quiet_args ev of None \<Rightarrow> quiet_commands tr | Some c \<Rightarrow> c # quiet_commands tr)"
  by (simp add: quiet_commands_def map_filter_def split: option.splits)

lemma quiet_commands_map [simp]:
  "quiet_commands (map Call_CliCommandWithoutTerminalOutput cs) = cs"
  by (induction cs) simp_all

lemma quiet_commands_prepare: "list_all prepare_event new \<Longrightarrow> quiet_commands new = []"
proof (induction new)
  case Nil
  show ?case by simp
next
  case (Cons ev new)
  then show ?case by (cases ev) simp_all
qed

lemma bnd_call: "bnd (call ev a) f tr = f (a tr) (tr @ [ev])"
  by (simp add: bnd_def call_def)

lemma bnd_orFatal_call:
  "bnd (orFatal (call ev a)) f tr =
     (case a tr of Inl e \<Rightarrow> (tr @ [ev], Inl (Fatalf e)) | Inr x \<Rightarrow> f x (tr @ [ev]))"
  by (simp add: run_defs split: sum.splits)

lemma setEnvs_run:
  assumes "setEnvs cli cmds tr = (tr', r)"
  shows "\<exists>k\<le>length cmds.
           tr' = tr @ map Call_CliCommandWithoutTerminalOutput (take k cmds) \<and>
           (r = Inr () \<longrightarrow> k = length cmds) \<and> (\<forall>e. r = Inl e \<longrightarrow> 0 < k)"
  using assms
proof (induction cmds arbitrary: tr)
  case Nil
  then show ?case by (auto simp: ret_def)
next
  case (Cons c cmds)
  show ?case
  proof (cases "CliCommandWithoutTerminalOutput cli tr c")
    case (Inl e)
    with Cons.prems have "tr' = tr @ map Call_CliCommandWithoutTerminalOutput (take 1 (c # cmds))"
      "r = Inl (Fatalf e)"
      by (simp_all add: cli_CliCommandWithoutTerminalOutput_def bnd_orFatal_call)
    then show ?thesis by (intro exI [of _ 1]) simp
  next
    case (Inr out)
    with Cons.prems
    have "setEnvs cli cmds (tr @ [Call_CliCommandWithoutTerminalOutput c]) = (tr', r)"
      by (simp add: cli_CliCommandWithoutTerminalOutput_def bnd_orFatal_call)
    from Cons.IH [OF this] obtain k where "k \<le> length cmds"
      "tr' = (tr @ [Call_CliCommandWithoutTerminalOutput c]) @
             map Call_CliCommandWithoutTerminalOutput (take k cmds)"
      "r = Inr () \<longrightarrow> k = length cmds"
      by blast
    then show ?thesis by (intro exI [of _ "Suc k"]) simp
  qed
qed

lemma length_envCommands [simp]: "length (envCommands n s h ua us pw lc sy sk gr) = 11"
  by (simp add: envCommands_def)

lemma configureAndStart_post:
  assumes "configureAndStart cli name cmds tr = (tr', r)"
  shows "\<exists>k post. k \<le> length cmds \<and>
           tr' = tr @ map Call_CliCommandWithoutTerminalOutput (take k cmds) @ post \<and>
           (post = [] \<or> k = length cmds \<and> post = [Call_CliCommand [''start'', name]]) \<and>
           (r = Inr () \<longrightarrow> k = length cmds \<and> post = [Call_CliCommand [''start'', name]])"
  using assms unfolding configureAndStart_def
proof (cases rule: bnd_cases)
  case (stop e)
  from setEnvs_run [OF stop(1)] obtain k where "k \<le> length cmds"
    "tr' = tr @ map Call_CliCommandWithoutTerminalOutput (take k cmds)"
    by blast
  with stop(2) show ?thesis
    by (intro exI [of _ k] exI [of _ "[]"]) simp
next
  case (go tr1 x)
  from setEnvs_run [OF go(1)] have tr1: "tr1 = tr @ map Call_CliCommandWithoutTerminalOutput cmds"
    by auto
  from go(2) have "tr' = tr1 @ [Call_CliCommand [''start'', name]]"
    by (auto simp: cli_CliCommand_def bnd_orFatal_call ret_def split: sum.splits)
  with tr1 show ?thesis
    by (intro exI [of _ "length cmds"] exI [of _ "[Call_CliCommand [''start'', name]]"]) simp
qed

text \<open>
  The shape of a deployment: the download, the push, the query of the SSL setting and the
  generation of the group name, then the \<open>set-env\<close> commands as far as they succeed, then
  the start.
\<close>

lemma after_push_extend:
  assumes "after_push L cli name (tr @ new1) new2 cmds skip g k" and "quiet_commands new1 = []"
  shows "after_push L cli name tr (new1 @ new2) cmds skip g k"
proof -
  from assms(1) obtain pre post dir out where
    "new2 = pre @ [Call_CliCommand (push_command name dir), Call_IsSSLDisabled, Call_NewV4] @
              map Call_CliCommandWithoutTerminalOutput (take k cmds) @ post"
    "quiet_commands pre = []"
    "post = [] \<or> k = length cmds \<and> post = [Call_CliCommand [''start'', name]]"
    "CliCommand cli ((tr @ new1) @ pre) (push_command name dir) = Inr out"
    "IsSSLDisabled cli ((tr @ new1) @ pre @ [Call_CliCommand (push_command name dir)]) =
       Inr skip"
    "uuid_NewV4 L ((tr @ new1) @ pre @
       [Call_CliCommand (push_command name dir), Call_IsSSLDisabled]) = Inr g"
    unfolding after_push_def by blast
  with assms(2) show ?thesis
    unfolding after_push_def
    by (intro exI [of _ "new1 @ pre"] exI [of _ post] exI [of _ dir] exI [of _ out]) simp
qed

lemma deployForwarder_run:
  assumes "deployForwarder L cli d u target name srcID org space apiEndpoint username password
             tr = (tr', r)"
    and "cmds = (\<lambda>skip g. envCommands name srcID (org @ ''.'' @ space @ ''.'' @ target)
                       (strings_Replace1 apiEndpoint ''api.'' ''uaa.'') username password
                       (strings_Replace1 apiEndpoint ''api.'' ''log-cache.'')
                       (url_String L u) (Sprintf_t skip) (UUID_String g))"
  shows "\<exists>new skip g k.
           tr' = tr @ new \<and> quiet_commands new = take k (cmds skip g) \<and>
           (r = Inr () \<longrightarrow> k = 11) \<and>
           (0 < k \<longrightarrow> after_push L cli name tr new (cmds skip g) skip g k)"
proof -
  let ?dl = "Call_Download ''syslog_forwarder''"
  let ?dir = "path_Dir L (d tr ''syslog_forwarder'')"
  let ?push = "Call_CliCommand (push_command name ?dir)"
  have len: "length (cmds skip g) = 11" for skip g
    by (simp add: assms(2))
  have early: ?thesis if "tr' = tr @ new" "quiet_commands new = []" "r \<noteq> Inr ()" for new
    using that
    by (intro exI [of _ new] exI [of _ False] exI [of _ "Abs_UUID []"] exI [of _ 0]) simp
  show ?thesis
  proof (cases "CliCommand cli (tr @ [?dl]) (push_command name ?dir)")
    case (Inl e)
    with assms(1) show ?thesis
      by (intro early [of "[?dl, ?push]"])
        (auto simp: deployForwarder_def cli_defs bnd_call bnd_orFatal_call)
  next
    case push: (Inr out)
    show ?thesis
    proof (cases "IsSSLDisabled cli (tr @ [?dl, ?push])")
      case (Inl e)
      with assms(1) push show ?thesis
        by (intro early [of "[?dl, ?push, Call_IsSSLDisabled]"])
          (auto simp: deployForwarder_def cli_defs bnd_call bnd_orFatal_call)
    next
      case ssl: (Inr skip)
      show ?thesis
      proof (cases "uuid_NewV4 L (tr @ [?dl, ?push, Call_IsSSLDisabled])")
        case (Inl e)
        with assms(1) push ssl show ?thesis
          by (intro early [of "[?dl, ?push, Call_IsSSLDisabled, Call_NewV4]"])
            (auto simp: deployForwarder_def cli_defs bnd_call bnd_orFatal_call)
      next
        case uuid: (Inr g)
        from assms(1) push ssl uuid
        have "configureAndStart cli name (cmds skip g)
                (tr @ [?dl, ?push, Call_IsSSLDisabled, Call_NewV4]) = (tr', r)"
          unfolding assms(2)
          by (simp add: deployForwarder_def configureAndStart_def cli_defs bnd_call
              bnd_orFatal_call)
        from configureAndStart_post [OF this] len [of skip g] obtain k post where k: "k \<le> 11"
          and tr': "tr' = (tr @ [?dl, ?push, Call_IsSSLDisabled, Call_NewV4]) @
                 map Call_CliCommandWithoutTerminalOutput (take k (cmds skip g)) @ post"
          and post: "post = [] \<or> k = length (cmds skip g) \<and>
                 post = [Call_CliCommand [''start'', name]]"
          and fin: "r = Inr () \<longrightarrow> k = 11"
          by auto
        define new where "new = [?dl, ?push, Call_IsSSLDisabled, Call_NewV4] @
                 map Call_CliCommandWithoutTerminalOutput (take k (cmds skip g)) @ post"
        have 1: "tr' = tr @ new" using tr' by (simp add: new_def)
        from post have "quiet_commands post = []" by auto
        then have 2: "quiet_commands new = take k (cmds skip g)"
          by (simp add: new_def)
        have 3: "after_push L cli name tr new (cmds skip g) skip g k"
          unfolding after_push_def
          using push ssl uuid post
          by (intro exI [of _ "[?dl]"] exI [of _ post] exI [of _ ?dir] exI [of _ out])
            (simp add: new_def)
        from 1 2 3 fin show ?thesis
          by (intro exI [of _ new] exI [of _ skip] exI [of _ g] exI [of _ k]) simp
      qed
    qed
  qed
qed

text \<open>The \<open>set-env\<close> commands of a run of the application adapter.\<close>

lemma pushSyslogForwarder_set_envs:
  assumes "pushSyslogForwarder L cli u target name usr pwd d p tr = (tr', r)"
  obtains new srcID org space apiEndpoint username password skip g k cmds
  where "cmds = envCommands name srcID (org @ ''.'' @ space @ ''.'' @ target)
                  (strings_Replace1 apiEndpoint ''api.'' ''uaa.'') username password
                  (strings_Replace1 apiEndpoint ''api.'' ''log-cache.'')
                  (url_String L u) (Sprintf_t skip) (UUID_String g)"
    and "tr' = tr @ new" and "quiet_commands new = take k cmds"
    and "r = Inr () \<longrightarrow> k = 11"
    and "0 < k \<longrightarrow>
           prepared cli target (srcID, org, space, apiEndpoint, username, password) \<and>
           after_push L cli name tr new cmds skip g k"
  using assms
proof (cases rule: pushSyslogForwarder_cases)
  case (aborted new e)
  have 1: "quiet_commands new = take 0 cmds" for cmds :: "string list list"
    using aborted(2) by (simp add: quiet_commands_prepare)
  have 2: "r = Inr () \<longrightarrow> (0::nat) = 11"
    using aborted(3) by simp
  have 3: "(0::nat) < 0 \<longrightarrow> A" for A
    by simp
  show ?thesis
    by (rule that [where srcID = "[]" and org = "[]" and space = "[]" and apiEndpoint = "[]" and
          username = "[]" and password = "[]" and skip = False and g = "Abs_UUID []" and
          k = 0 and new = new, OF refl aborted(1) 1 2 3])
next
  case (deployed new1 srcID org space apiEndpoint username password)
  define cmds where "cmds = (\<lambda>skip g.
      envCommands name srcID (org @ ''.'' @ space @ ''.'' @ target)
                       (strings_Replace1 apiEndpoint ''api.'' ''uaa.'') username password
                       (strings_Replace1 apiEndpoint ''api.'' ''log-cache.'')
                       (url_String L u) (Sprintf_t skip) (UUID_String g))"
  from deployForwarder_run [OF deployed(3) cmds_def] obtain new2 skip g k
    where tr': "tr' = (tr @ new1) @ new2"
      and quiet: "quiet_commands new2 = take k (cmds skip g)"
      and fin: "r = Inr () \<longrightarrow> k = 11"
      and pos: "0 < k \<longrightarrow> after_push L cli name (tr @ new1) new2 (cmds skip g) skip g k"
    by auto
  have q1: "quiet_commands new1 = []"
    using deployed(1) by (rule quiet_commands_prepare)
  have 1: "tr' = tr @ (new1 @ new2)" using tr' by simp
  have 2: "quiet_commands (new1 @ new2) = take k (cmds skip g)"
    using q1 quiet by simp
  have 3: "0 < k \<longrightarrow>
      prepared cli target (srcID, org, space, apiEndpoint, username, password) \<and>
      after_push L cli name tr (new1 @ new2) (cmds skip g) skip g k"
  proof
    assume "0 < k"
    with pos have "after_push L cli name (tr @ new1) new2 (cmds skip g) skip g k" by simp
    then have "after_push L cli name tr (new1 @ new2) (cmds skip g) skip g k"
      using q1 by (rule after_push_extend)
    with deployed(2)
    show "prepared cli target (srcID, org, space, apiEndpoint, username, password) \<and>
      after_push L cli name tr (new1 @ new2) (cmds skip g) skip g k" ..
  qed
  have 4: "cmds skip g = envCommands name srcID (org @ ''.'' @ space @ ''.'' @ target)
                       (strings_Replace1 apiEndpoint ''api.'' ''uaa.'') username password
                       (strings_Replace1 apiEndpoint ''api.'' ''log-cache.'')
                       (url_String L u) (Sprintf_t skip) (UUID_String g)"
    by (simp add: cmds_def)
  from 4 1 2 fin 3 show ?thesis by (rule that)
qed

end
